theory Spec2Isabelle
  imports Complex_Main "HOL-Library.Multiset"
begin

section \<open>Values, errors and rounding\<close>

text \<open>
  The training script \<^verbatim>\<open>train.py\<close> is embedded function by function. Python floats and
  torch tensors of floats are modelled by real numbers (exact arithmetic); a float that is
  not a number is written \<open>NaN\<close> where the script can produce one by itself. Printing is
  left out: it changes no value.
\<close>

datatype error =
    Exception string
  | ZeroDivisionError
  | RuntimeError
  | FileExistsError
  | FileNotFoundError
  | NotADirectoryError
  | IsADirectoryError
  | ValueError

datatype fl = Fin real | NaN

text \<open>A 2-dimensional tensor, one row per sample.\<close>

type_synonym tensor = "real list list"

text \<open>
  What \<^verbatim>\<open>torch.round\<close> and Python's \<^verbatim>\<open>round\<close> do with a tie: the even neighbour.
\<close>

definition round_half_even :: "real \<Rightarrow> int" where
  "round_half_even x =
     (let f = \<lfloor>x\<rfloor>; d = x - of_int f
      in if d < 1 / 2 then f
         else if 1 / 2 < d then f + 1
         else if even f then f else f + 1)"

text \<open>\<^verbatim>\<open>round(x, ndigits)\<close> on a float.\<close>

definition py_round :: "real \<Rightarrow> nat \<Rightarrow> real" where
  "py_round x ndigits = of_int (round_half_even (x * 10 ^ ndigits)) / 10 ^ ndigits"

fun fl_add :: "fl \<Rightarrow> fl \<Rightarrow> fl" where
  "fl_add (Fin a) (Fin b) = Fin (a + b)"
| "fl_add _ _ = NaN"

fun fl_round :: "fl \<Rightarrow> nat \<Rightarrow> fl" where
  "fl_round (Fin a) ndigits = Fin (py_round a ndigits)"
| "fl_round NaN ndigits = NaN"

text \<open>
  \<^verbatim>\<open>x / n\<close> for a Python float \<open>x\<close> and a Python int \<open>n\<close>: a zero divisor raises.
\<close>

definition py_div :: "real \<Rightarrow> nat \<Rightarrow> error + real" where
  "py_div x n = (if n = 0 then Inl ZeroDivisionError else Inr (x / real n))"

fun py_div_fl :: "fl \<Rightarrow> nat \<Rightarrow> error + fl" where
  "py_div_fl x 0 = Inl ZeroDivisionError"
| "py_div_fl (Fin a) n = Inr (Fin (a / real n))"
| "py_div_fl NaN n = Inr NaN"

text \<open>
  \<^verbatim>\<open>t / n\<close> for a 0-dimensional float tensor \<open>t\<close>: torch raises nothing; the tensor
  here is a count, so a zero divisor meets a zero count only and gives not-a-number.
\<close>

definition torch_div :: "real \<Rightarrow> nat \<Rightarrow> fl" where
  "torch_div t n = (if n = 0 then NaN else Fin (t / real n))"

definition sigmoid :: "real \<Rightarrow> real" where
  "sigmoid x = 1 / (1 + exp (- x))"

definition torch_round :: "real \<Rightarrow> real" where
  "torch_round x = of_int (round_half_even x)"

section \<open>Batches and collaborators\<close>

text \<open>
  A batch as the loader over a \<^verbatim>\<open>TensorDataset\<close> yields it: the samples of the batch,
  each an input and its target row; \<^verbatim>\<open>data[0]\<close> is the column of inputs and
  \<^verbatim>\<open>data[1]\<close> the column of target rows, so both have the same leading dimension.
\<close>

type_synonym 'x batch = "('x \<times> real list) list"

definition input_of :: "'x batch \<Rightarrow> 'x list" where
  "input_of data = map fst data"

definition target_of :: "'x batch \<Rightarrow> tensor" where
  "target_of data = map snd data"

text \<open>
  The callables \<^verbatim>\<open>train\<close> and \<^verbatim>\<open>validate\<close> receive. \<open>'st\<close> is everything an iteration
  can change: the parameters of the net and the moments of the optimizer.
  \<^item> \<open>forward_train\<close>, \<open>forward_eval\<close>: \<^verbatim>\<open>net(input)\<close> after \<^verbatim>\<open>net.train()\<close>, after
    \<^verbatim>\<open>net.eval()\<close>;
  \<^item> \<open>objective\<close>: \<^verbatim>\<open>objective(output, target)\<close> read with \<^verbatim>\<open>.item()\<close>; it may raise;
  \<^item> \<open>opt_step\<close>: \<^verbatim>\<open>optimizer.zero_grad()\<close>, \<^verbatim>\<open>loss.backward()\<close> and
    \<^verbatim>\<open>optimizer.step()\<close> of one iteration, at the learning rate given first.
\<close>

record ('st, 'x) collab =
  forward_train :: "'st \<Rightarrow> 'x list \<Rightarrow> tensor"
  forward_eval :: "'st \<Rightarrow> 'x list \<Rightarrow> tensor"
  objective :: "tensor \<Rightarrow> tensor \<Rightarrow> error + real"
  opt_step :: "real \<Rightarrow> 'st \<Rightarrow> 'x list \<Rightarrow> tensor \<Rightarrow> 'st"

section \<open>Train step\<close>

text \<open>
  The loop of \<^verbatim>\<open>train\<close> over the batches, with its accumulator \<^verbatim>\<open>epoch_loss\<close> and the
  state the optimizer updates. An exception of the objective leaves the loop.
\<close>

fun train_loop ::
  "('st, 'x) collab \<Rightarrow> real \<Rightarrow> 'x batch list \<Rightarrow> real \<Rightarrow> 'st \<Rightarrow> error option \<times> real \<times> 'st" where
  "train_loop c lr [] epoch_loss st = (None, epoch_loss, st)"
| "train_loop c lr (data # rest) epoch_loss st =
     (let input = input_of data; target = target_of data;
          output = forward_train c st input
      in case objective c output target of
           Inl e \<Rightarrow> (Some e, epoch_loss, st)
         | Inr loss \<Rightarrow>
             train_loop c lr rest (epoch_loss + loss) (opt_step c lr st input target))"

text \<open>
  \<^verbatim>\<open>train\<close>: the outcome (the rounded mean, or the exception raised) and the state
  the call leaves behind. \<^verbatim>\<open>len(train_set_loader)\<close> is the number of batches.
\<close>

definition train ::
  "('st, 'x) collab \<Rightarrow> nat \<Rightarrow> real \<Rightarrow> 'st \<Rightarrow> 'x batch list \<Rightarrow> (error + real) \<times> 'st" where
  "train c epoch lr st train_set_loader =
     (case train_loop c lr train_set_loader 0 st of
        (Some e, epoch_loss, st') \<Rightarrow> (Inl e, st')
      | (None, epoch_loss, st') \<Rightarrow>
          (case py_div epoch_loss (length train_set_loader) of
             Inl e \<Rightarrow> (Inl e, st')
           | Inr m \<Rightarrow> (Inr (py_round m 4), st')))"

text \<open>
  The objective values \<^verbatim>\<open>train\<close> meets, batch by batch in processing order, each
  computed on the state the earlier batches left.
\<close>

fun batch_losses ::
  "('st, 'x) collab \<Rightarrow> real \<Rightarrow> 'x batch list \<Rightarrow> 'st \<Rightarrow> error + real list" where
  "batch_losses c lr [] st = Inr []"
| "batch_losses c lr (data # rest) st =
     (case objective c (forward_train c st (input_of data)) (target_of data) of
        Inl e \<Rightarrow> Inl e
      | Inr loss \<Rightarrow>
          (case batch_losses c lr rest (opt_step c lr st (input_of data) (target_of data)) of
             Inl e \<Rightarrow> Inl e
           | Inr ls \<Rightarrow> Inr (loss # ls)))"

text \<open>The mean of a list of values, rounded to 4 decimals.\<close>

definition rounded_mean :: "real list \<Rightarrow> real" where
  "rounded_mean ls = py_round (sum_list ls / real (length ls)) 4"

section \<open>Validate step\<close>

text \<open>
  \<^verbatim>\<open>target == torch.sigmoid(output).round()\<close>, for two tensors of one shape.
\<close>

definition eq_prediction :: "tensor \<Rightarrow> tensor \<Rightarrow> bool list list" where
  "eq_prediction target output =
     map2 (\<lambda>t_row o_row. map2 (\<lambda>t v. t = torch_round (sigmoid v)) t_row o_row) target output"

text \<open>\<^verbatim>\<open>torch.prod(m, dim=-1)\<close> on a tensor of booleans: 1 for a row all true.\<close>

definition prod_last_dim :: "bool list list \<Rightarrow> nat list" where
  "prod_last_dim m = map (\<lambda>row. prod_list (map of_bool row)) m"

text \<open>
  The accuracy of one batch, the summand of \<^verbatim>\<open>avg_acc\<close>. The comparison is modelled
  for an output of the target's shape; on another shape torch broadcasts or raises, and
  the model raises.
\<close>

definition batch_accuracy :: "tensor \<Rightarrow> tensor \<Rightarrow> nat \<Rightarrow> error + fl" where
  "batch_accuracy target output shape0 =
     (if map length output \<noteq> map length target then Inl RuntimeError
      else Inr (torch_div (real (sum_list (prod_last_dim (eq_prediction target output))))
                  shape0))"

fun validate_loop ::
  "('st, 'x) collab \<Rightarrow> 'st \<Rightarrow> 'x batch list \<Rightarrow> real \<Rightarrow> fl \<Rightarrow> error + real \<times> fl" where
  "validate_loop c st [] avg_loss avg_acc = Inr (avg_loss, avg_acc)"
| "validate_loop c st (data # rest) avg_loss avg_acc =
     (let input = input_of data; target = target_of data;
          output = forward_eval c st input
      in case objective c output target of
           Inl e \<Rightarrow> Inl e
         | Inr loss \<Rightarrow>
             (case batch_accuracy target output (length input) of
                Inl e \<Rightarrow> Inl e
              | Inr acc \<Rightarrow> validate_loop c st rest (avg_loss + loss) (fl_add avg_acc acc)))"

text \<open>\<^verbatim>\<open>validate\<close>: the pair (valid_loss, valid_acc), or the exception raised.\<close>

definition validate ::
  "('st, 'x) collab \<Rightarrow> 'st \<Rightarrow> 'x batch list \<Rightarrow> error + real \<times> fl" where
  "validate c st valid_set_loader =
     (case validate_loop c st valid_set_loader 0 (Fin 0) of
        Inl e \<Rightarrow> Inl e
      | Inr (avg_loss, avg_acc) \<Rightarrow>
          (case py_div avg_loss (length valid_set_loader) of
             Inl e \<Rightarrow> Inl e
           | Inr l \<Rightarrow>
               (case py_div_fl avg_acc (length valid_set_loader) of
                  Inl e \<Rightarrow> Inl e
                | Inr a \<Rightarrow> Inr (py_round l 4, fl_round a 4))))"




section \<open>Plateau scheduler\<close>

text \<open>
  Modelled from the spec: the scheduler is the library class
  \<^verbatim>\<open>optim.lr_scheduler.ReduceLROnPlateau\<close>, which \<^verbatim>\<open>get_lr_scheduler\<close> builds and the
  epoch loop steps; its code is not part of \<^verbatim>\<open>train.py\<close>. The record and the transition
  follow section 4.3 of the specification: best loss, wait counter and current rate; a
  loss improves when it is lower than the best loss by more than a threshold; the
  reduction factor is 0.1; the best loss starts at plus infinity (\<open>None\<close>: no loss seen
  yet, every loss improves on it). The specification leaves open how the threshold is
  measured, so both readings are modelled: relative to the best loss (\<open>Rel\<close>, the
  library's default, with threshold 0.0001) or absolute (\<open>Abs\<close>).
\<close>

datatype threshold_mode = Rel | Abs

record sched_config =
  patience :: int
  threshold :: real
  mode :: threshold_mode

record sched_state =
  current_rate :: real
  best_loss :: "real option"
  wait_counter :: nat

definition reduction_factor :: real where
  "reduction_factor = 1 / 10"

text \<open>
  Modelled from the spec: whether \<open>L\<close> is lower than the best loss by more than the
  threshold (the library's test is not in the source).
\<close>

fun is_better :: "sched_config \<Rightarrow> real \<Rightarrow> real option \<Rightarrow> bool" where
  "is_better cfg L None = True"
| "is_better cfg L (Some best) =
     (case mode cfg of
        Rel \<Rightarrow> L < best * (1 - threshold cfg)
      | Abs \<Rightarrow> L < best - threshold cfg)"

text \<open>
  Modelled from the spec: whether the step on loss \<open>L\<close> reduces the rate (the library's
  \<^verbatim>\<open>ReduceLROnPlateau.step\<close> is not in the source): the loss does not improve and the
  incremented wait counter exceeds the patience.
\<close>

definition reduces :: "sched_config \<Rightarrow> real \<Rightarrow> sched_state \<Rightarrow> bool" where
  "reduces cfg L s =
     (\<not> is_better cfg L (best_loss s) \<and> patience cfg < int (wait_counter s + 1))"

text \<open>
  Modelled from the spec: \<^verbatim>\<open>lr_scheduler.step(valid_loss)\<close>, the transition of section
  4.3 (the library's \<^verbatim>\<open>ReduceLROnPlateau.step\<close> is not in the source).
\<close>

definition scheduler_step :: "sched_config \<Rightarrow> real \<Rightarrow> sched_state \<Rightarrow> sched_state" where
  "scheduler_step cfg L s =
     (if is_better cfg L (best_loss s)
      then s\<lparr>best_loss := Some L, wait_counter := 0\<rparr>
      else if patience cfg < int (wait_counter s + 1)
      then s\<lparr>current_rate := current_rate s * reduction_factor, wait_counter := 0\<rparr>
      else s\<lparr>wait_counter := wait_counter s + 1\<rparr>)"

text \<open>
  \<^verbatim>\<open>get_lr_scheduler\<close>: the source passes the patience; the threshold and its mode are
  defaults of the library, taken as parameters.
\<close>

definition get_lr_scheduler ::
  "real \<Rightarrow> threshold_mode \<Rightarrow> real \<Rightarrow> int \<Rightarrow> sched_config \<times> sched_state" where
  "get_lr_scheduler thr m rate p =
     (\<lparr>patience = p, threshold = thr, mode = m\<rparr>,
      \<lparr>current_rate = rate, best_loss = None, wait_counter = 0\<rparr>)"

text \<open>
  The scheduler stepped once per epoch on the validation losses of a run: the states in
  effect at epoch 1, 2, ... (one more than there are losses).
\<close>

fun scheduler_states :: "sched_config \<Rightarrow> sched_state \<Rightarrow> real list \<Rightarrow> sched_state list" where
  "scheduler_states cfg s [] = [s]"
| "scheduler_states cfg s (L # Ls) = s # scheduler_states cfg (scheduler_step cfg L s) Ls"

text \<open>For each epoch of the run, whether its step reduced the rate.\<close>

fun reductions :: "sched_config \<Rightarrow> sched_state \<Rightarrow> real list \<Rightarrow> bool list" where
  "reductions cfg s [] = []"
| "reductions cfg s (L # Ls) = reduces cfg L s # reductions cfg (scheduler_step cfg L s) Ls"

text \<open>
  A loss sequence every element of which improves on the best loss before it, which is
  the element before it.
\<close>

fun improving :: "sched_config \<Rightarrow> real option \<Rightarrow> real list \<Rightarrow> bool" where
  "improving cfg best [] = True"
| "improving cfg best (L # Ls) = (is_better cfg L best \<and> improving cfg (Some L) Ls)"

text \<open>
  A run with the defaults of the script and of the library: patience 5, relative
  threshold 0.0001, learning rate 0.0005, and validation losses that fall by 0.0001 per
  epoch.
\<close>

definition default_config :: sched_config where
  "default_config = fst (get_lr_scheduler (1 / 10000) Rel (5 / 10000) 5)"

definition default_start :: sched_state where
  "default_start = snd (get_lr_scheduler (1 / 10000) Rel (5 / 10000) 5)"

definition slow_descent :: "real list" where
  "slow_descent =
     [10, 99999 / 10000, 99998 / 10000, 99997 / 10000, 99996 / 10000, 99995 / 10000,
      99994 / 10000]"

text \<open>The scenario of the specification: patience 2 and five validation losses.\<close>

definition scenario_losses :: "real list" where
  "scenario_losses = [1, 9 / 10, 95 / 100, 96 / 100, 97 / 100]"

section \<open>Checkpoint step\<close>

text \<open>
  The file system the script sees: a store of nodes under keys. A directory stands under
  the key of its place: the anchor (the root for an absolute path, the working directory
  for a relative one) and the names that lead from it, \<^verbatim>\<open>.\<close> and empty parts dropped
  and \<^verbatim>\<open>..\<close> followed to the parent. A file stands under its path as written: two
  spellings of one file path are two entries. Symbolic links, permissions and failures of
  the storage itself (a full disk) are outside the model, and so is the place of the
  working directory under the root: an absolute and a relative path never meet.
\<close>

datatype 'n node = Dir | File 'n

type_synonym 'n fs = "string \<Rightarrow> 'n node option"

text \<open>\<^verbatim>\<open>p.split('/')\<close>.\<close>

fun split_sep :: "string \<Rightarrow> string list" where
  "split_sep [] = [[]]"
| "split_sep (ch # p) =
     (if ch = CHR ''/'' then [] # split_sep p
      else case split_sep p of
             [] \<Rightarrow> [[ch]]
           | x # xs \<Rightarrow> (ch # x) # xs)"

text \<open>\<^verbatim>\<open>os.path.isabs\<close>.\<close>

definition absolute :: "string \<Rightarrow> bool" where
  "absolute p = (p \<noteq> [] \<and> hd p = CHR ''/'')"

text \<open>The key of a place: its names joined by the separator, after it when absolute.\<close>

fun join_sep :: "string list \<Rightarrow> string" where
  "join_sep [] = []"
| "join_sep [c] = c"
| "join_sep (c # d # cs) = c @ ''/'' @ join_sep (d # cs)"

definition place_key :: "bool \<Rightarrow> string list \<Rightarrow> string" where
  "place_key ab cs = (if ab then ''/'' else []) @ join_sep cs"

text \<open>
  The node at a place. The anchors are directories, and so is every ancestor of the
  working directory.
\<close>

definition node_at :: "'n fs \<Rightarrow> bool \<Rightarrow> string list \<Rightarrow> 'n node option" where
  "node_at fs ab cs =
     (if cs = [] \<or> (\<not> ab \<and> list_all (\<lambda>c. c = ''..'') cs) then Some Dir
      else fs (place_key ab cs))"

text \<open>The parent of a place; the root is its own parent.\<close>

definition up :: "bool \<Rightarrow> string list \<Rightarrow> string list" where
  "up ab cur =
     (if cur = [] then (if ab then [] else [''..''])
      else if last cur = ''..'' then cur @ [''..'']
      else butlast cur)"

text \<open>The error of passing through a place that is not a directory.\<close>

definition dir_error :: "'n fs \<Rightarrow> bool \<Rightarrow> string list \<Rightarrow> error option" where
  "dir_error fs ab cur =
     (case node_at fs ab cur of
        None \<Rightarrow> Some FileNotFoundError
      | Some (File n) \<Rightarrow> Some NotADirectoryError
      | Some Dir \<Rightarrow> None)"

text \<open>
  Following the parts of a path from a place: every place passed through must be a
  directory. The result is the place reached, which need not exist.
\<close>

fun walk :: "'n fs \<Rightarrow> bool \<Rightarrow> string list \<Rightarrow> string list \<Rightarrow> error + string list" where
  "walk fs ab cur [] = Inr cur"
| "walk fs ab cur (c # cs) =
     (case dir_error fs ab cur of
        Some e \<Rightarrow> Inl e
      | None \<Rightarrow>
          walk fs ab
            (if c = [] \<or> c = ''.'' then cur
             else if c = ''..'' then up ab cur
             else cur @ [c]) cs)"

text \<open>\<^verbatim>\<open>os.path.exists\<close>: the path leads somewhere.\<close>

definition os_path_exists :: "'n fs \<Rightarrow> string \<Rightarrow> bool" where
  "os_path_exists fs p =
     (p \<noteq> [] \<and>
      (case walk fs (absolute p) [] (split_sep p) of
         Inl e \<Rightarrow> False
       | Inr cur \<Rightarrow> node_at fs (absolute p) cur \<noteq> None))"

text \<open>The parts of a path without its trailing separators.\<close>

definition strip_trailing :: "string list \<Rightarrow> string list" where
  "strip_trailing cs = rev (dropWhile (\<lambda>c. c = []) (rev cs))"

text \<open>
  \<^verbatim>\<open>os.mkdir\<close>: the parent must be a directory and the name must be new; trailing
  separators do not count.
\<close>

definition os_mkdir :: "'n fs \<Rightarrow> string \<Rightarrow> error + 'n fs" where
  "os_mkdir fs p =
     (if p = [] then Inl FileNotFoundError
      else let cs = strip_trailing (split_sep p)
           in if cs = [] then Inl FileExistsError
              else case walk fs (absolute p) [] (butlast cs) of
                     Inl e \<Rightarrow> Inl e
                   | Inr cur \<Rightarrow>
                       (case dir_error fs (absolute p) cur of
                          Some e \<Rightarrow> Inl e
                        | None \<Rightarrow>
                            if last cs = ''.'' \<or> last cs = ''..'' then Inl FileExistsError
                            else if node_at fs (absolute p) (cur @ [last cs]) \<noteq> None
                            then Inl FileExistsError
                            else Inr (fs(place_key (absolute p) (cur @ [last cs]) \<mapsto> Dir))))"

text \<open>\<^verbatim>\<open>os.path.join\<close> of two parts.\<close>

definition os_path_join :: "string \<Rightarrow> string \<Rightarrow> string" where
  "os_path_join a b =
     (if b \<noteq> [] \<and> hd b = CHR ''/'' then b
      else if a = [] \<or> last a = CHR ''/'' then a @ b
      else a @ ''/'' @ b)"

text \<open>
  \<^verbatim>\<open>torch.save(net, path)\<close>: the file at \<open>path\<close> is created or replaced. Its parent
  must be a directory, and no directory may stand where the file goes.
\<close>

definition torch_save :: "'n fs \<Rightarrow> 'n \<Rightarrow> string \<Rightarrow> error + 'n fs" where
  "torch_save fs net path =
     (if path = [] then Inl FileNotFoundError
      else let cs = split_sep path
           in case walk fs (absolute path) [] (butlast cs) of
                Inl e \<Rightarrow> Inl e
              | Inr cur \<Rightarrow>
                  (case dir_error fs (absolute path) cur of
                     Some e \<Rightarrow> Inl e
                   | None \<Rightarrow>
                       if last cs = [] \<or> last cs = ''.'' \<or> last cs = ''..''
                       then Inl IsADirectoryError
                       else if fs path = Some Dir
                               \<or> node_at fs (absolute path) (cur @ [last cs]) = Some Dir
                       then Inl IsADirectoryError
                       else Inr (fs(path \<mapsto> File net))))"

text \<open>\<^verbatim>\<open>str(n)\<close> for an integer that is not negative: its decimal digits.\<close>

definition digit_char :: "nat \<Rightarrow> char" where
  "digit_char d = ''0123456789'' ! d"

fun str_nat :: "nat \<Rightarrow> string" where
  "str_nat n = (if n < 10 then [digit_char n] else str_nat (n div 10) @ [digit_char (n mod 10)])"

declare str_nat.simps [simp del]

text \<open>
  The name of the checkpoint of an epoch. \<open>float_repr\<close> is Python's rendering of a float
  in an f-string, a parameter of the model.
\<close>

definition checkpoint_name :: "(real \<Rightarrow> string) \<Rightarrow> nat \<Rightarrow> real \<Rightarrow> string" where
  "checkpoint_name float_repr epoch valid_loss =
     ''neuralsea-epoch-'' @ str_nat epoch @ ''-loss-'' @ float_repr valid_loss @ ''.pth''"

definition checkpoint_path :: "(real \<Rightarrow> string) \<Rightarrow> string \<Rightarrow> nat \<Rightarrow> real \<Rightarrow> string" where
  "checkpoint_path float_repr pth_dir epoch valid_loss =
     os_path_join pth_dir (checkpoint_name float_repr epoch valid_loss)"

text \<open>
  \<^verbatim>\<open>checkpoint\<close>. \<open>others\<close> is what the rest of the system does to the file system
  between the test \<^verbatim>\<open>os.path.exists\<close> and the statement after it; it is the identity
  when nothing else touches the directory. The result is the exception raised, if any,
  and the file system left.
\<close>

definition checkpoint ::
  "(real \<Rightarrow> string) \<Rightarrow> ('n fs \<Rightarrow> 'n fs) \<Rightarrow> 'n \<Rightarrow> string \<Rightarrow> nat \<Rightarrow> real \<Rightarrow> 'n fs
     \<Rightarrow> error option \<times> 'n fs" where
  "checkpoint float_repr others net pth_dir epoch valid_loss fs =
     (let absent = \<not> os_path_exists fs pth_dir; fs1 = others fs
      in case (if absent then os_mkdir fs1 pth_dir else Inr fs1) of
           Inl e \<Rightarrow> (Some e, fs1)
         | Inr fs2 \<Rightarrow>
             (case torch_save fs2 net (checkpoint_path float_repr pth_dir epoch valid_loss) of
                Inl e \<Rightarrow> (Some e, fs2)
              | Inr fs3 \<Rightarrow> (None, fs3)))"

text \<open>Another process that calls \<^verbatim>\<open>os.mkdir\<close> on \<open>p\<close>.\<close>

definition creates_dir :: "string \<Rightarrow> 'n fs \<Rightarrow> 'n fs" where
  "creates_dir p fs = (case os_mkdir fs p of Inl e \<Rightarrow> fs | Inr fs' \<Rightarrow> fs')"

definition empty_fs :: "'n fs" where
  "empty_fs = Map.empty"

section \<open>The script: setup and epoch loop\<close>

text \<open>The command line, as \<^verbatim>\<open>parser.parse_args()\<close> returns it.\<close>

record args =
  arg_batch_size :: int
  arg_valid_batch_size :: int
  arg_epochs :: int
  arg_lr :: real
  arg_l2 :: real
  arg_patience :: int
  arg_warm_start :: string
  arg_cuda :: bool
  arg_visdom :: bool
  arg_env :: string
  arg_X_train :: string
  arg_y_train :: string
  arg_X_valid :: string
  arg_y_valid :: string
  arg_threads :: int
  arg_pth_dir :: string
  arg_seed :: int

datatype device = Cpu | Cuda

text \<open>
  What the script finds around it, and the defaults of the libraries it calls:
  \<^item> \<open>env_cuda_is_available\<close>: \<^verbatim>\<open>torch.cuda.is_available()\<close>;
  \<^item> \<open>env_visdom\<close>: the exception connecting to visdom raises, if any;
  \<^item> \<open>env_load_set\<close>: \<^verbatim>\<open>get_dataset_loader\<close> on two paths, a batch size and a thread
    count: the exception loading raises, or the loader, given as the batches it yields
    when iterated in epoch 1, 2, ... (it shuffles each time);
  \<^item> \<open>env_torch_load\<close>: \<^verbatim>\<open>torch.load\<close> of a warm-start path; \<open>env_fresh_net\<close>: \<^verbatim>\<open>NeuralSEA()\<close>;
  \<^item> \<open>env_threshold\<close>, \<open>env_mode\<close>: the scheduler's threshold;
  \<^item> \<open>env_float_repr\<close>: the rendering of a float in an f-string.
\<close>

record ('st, 'x) env =
  env_cuda_is_available :: bool
  env_visdom :: "string \<Rightarrow> error option"
  env_load_set :: "string \<Rightarrow> string \<Rightarrow> int \<Rightarrow> int \<Rightarrow> error + (nat \<Rightarrow> 'x batch list)"
  env_torch_load :: "string \<Rightarrow> error + 'st"
  env_fresh_net :: "'st"
  env_threshold :: real
  env_mode :: threshold_mode
  env_float_repr :: "real \<Rightarrow> string"

text \<open>
  What a completed epoch did: the rate its train step ran at, its three metrics, and the
  checkpoint it wrote. The list of these is kept for stating properties of a run; the
  script prints them.
\<close>

record 'st entry =
  e_epoch :: nat
  e_rate :: real
  e_train_loss :: real
  e_valid_loss :: real
  e_valid_acc :: fl
  e_path :: string
  e_net :: 'st

text \<open>The state of the epoch loop.\<close>

record 'st loop_state =
  l_net :: 'st
  l_sched :: sched_state
  l_files :: "'st fs"
  l_plots :: "(nat \<times> real \<times> real \<times> fl) list"
  l_history :: "'st entry list"

text \<open>Everything the script creates or changes, from its first statement on.\<close>

record 'st world =
  w_rng_seed :: "int option"
  w_vis_env :: "string option"
  w_net :: "'st option"
  w_scheduler :: "sched_state option"
  w_files :: "'st fs"
  w_plots :: "(nat \<times> real \<times> real \<times> fl) list"
  w_history :: "'st entry list"

text \<open>
  \<^verbatim>\<open>seed\<close>: numpy takes a seed from 0 to \<open>2^32 - 1\<close> and raises on any other.
\<close>

definition seed :: "int \<Rightarrow> 'st world \<Rightarrow> error option \<times> 'st world" where
  "seed s w =
     (if s < 0 \<or> 2 ^ 32 \<le> s then (Some ValueError, w)
      else (None, w\<lparr>w_rng_seed := Some s\<rparr>))"

definition setup_visdom :: "('st, 'x) env \<Rightarrow> string \<Rightarrow> 'st world \<Rightarrow> error option \<times> 'st world" where
  "setup_visdom ev name w =
     (case env_visdom ev name of
        Some e \<Rightarrow> (Some e, w)
      | None \<Rightarrow> (None, w\<lparr>w_vis_env := Some name\<rparr>))"

definition setup_device :: "bool \<Rightarrow> bool \<Rightarrow> error + device" where
  "setup_device use_cuda cuda_is_available =
     (if use_cuda \<and> \<not> cuda_is_available
      then Inl (Exception ''No GPU found, please run without: --cuda'')
      else Inr (if use_cuda then Cuda else Cpu))"

definition get_dataset_loader ::
  "('st, 'x) env \<Rightarrow> string \<Rightarrow> string \<Rightarrow> int \<Rightarrow> int \<Rightarrow> error + (nat \<Rightarrow> 'x batch list)" where
  "get_dataset_loader ev X_path y_path batch_size threads =
     env_load_set ev X_path y_path batch_size threads"

definition build_net :: "('st, 'x) env \<Rightarrow> string \<Rightarrow> device \<Rightarrow> error + 'st" where
  "build_net ev warm_start dev =
     (if warm_start \<noteq> [] then env_torch_load ev warm_start else Inr (env_fresh_net ev))"

text \<open>
  \<^verbatim>\<open>get_optimizer\<close>: Adam refuses a negative learning rate and a negative weight decay
  with a ValueError; the result is the rate the optimizer starts at.
\<close>

definition get_optimizer :: "real \<Rightarrow> real \<Rightarrow> error + real" where
  "get_optimizer rate l2 = (if rate < 0 \<or> l2 < 0 then Inl ValueError else Inr rate)"

text \<open>
  The body of the epoch loop, for the epochs listed: train, validate, step the scheduler,
  checkpoint, plot. The rate the train step runs at is the scheduler's current rate.
\<close>

fun run_epochs ::
  "('st, 'x) collab \<Rightarrow> args \<Rightarrow> ('st, 'x) env \<Rightarrow> sched_config \<Rightarrow> (nat \<Rightarrow> 'x batch list)
     \<Rightarrow> (nat \<Rightarrow> 'x batch list) \<Rightarrow> nat list \<Rightarrow> 'st loop_state
     \<Rightarrow> error option \<times> 'st loop_state" where
  "run_epochs c a ev cfg train_set_loader valid_set_loader [] s = (None, s)"
| "run_epochs c a ev cfg train_set_loader valid_set_loader (epoch # rest) s =
     (case train c epoch (current_rate (l_sched s)) (l_net s) (train_set_loader epoch) of
        (Inl e, st) \<Rightarrow> (Some e, s\<lparr>l_net := st\<rparr>)
      | (Inr train_loss, st) \<Rightarrow>
          (case validate c st (valid_set_loader epoch) of
             Inl e \<Rightarrow> (Some e, s\<lparr>l_net := st\<rparr>)
           | Inr (valid_loss, valid_acc) \<Rightarrow>
               (let sched = scheduler_step cfg valid_loss (l_sched s)
                in case checkpoint (env_float_repr ev) id st (arg_pth_dir a) epoch valid_loss
                          (l_files s) of
                     (Some e, fs) \<Rightarrow> (Some e, s\<lparr>l_net := st, l_sched := sched, l_files := fs\<rparr>)
                   | (None, fs) \<Rightarrow>
                       run_epochs c a ev cfg train_set_loader valid_set_loader rest
                         (s\<lparr>l_net := st, l_sched := sched, l_files := fs,
                            l_plots := (if arg_visdom a
                                        then l_plots s @ [(epoch, train_loss, valid_loss, valid_acc)]
                                        else l_plots s),
                            l_history := l_history s @
                              [\<lparr>e_epoch = epoch, e_rate = current_rate (l_sched s),
                                e_train_loss = train_loss, e_valid_loss = valid_loss,
                                e_valid_acc = valid_acc,
                                e_path = checkpoint_path (env_float_repr ev) (arg_pth_dir a)
                                           epoch valid_loss,
                                e_net = st\<rparr>]\<rparr>))))"

text \<open>\<^verbatim>\<open>range(1, epochs + 1)\<close>.\<close>

definition epoch_range :: "int \<Rightarrow> nat list" where
  "epoch_range epochs = [1 ..< nat (epochs + 1)]"

definition initial_world :: "'st fs \<Rightarrow> 'st world" where
  "initial_world fs =
     \<lparr>w_rng_seed = None, w_vis_env = None, w_net = None, w_scheduler = None, w_files = fs,
      w_plots = [], w_history = []\<rparr>"

text \<open>The steps of the script after the device is set up.\<close>

definition start_training ::
  "('st, 'x) collab \<Rightarrow> args \<Rightarrow> ('st, 'x) env \<Rightarrow> device \<Rightarrow> 'st world \<Rightarrow> error option \<times> 'st world" where
  "start_training c a ev dev w =
     (case get_dataset_loader ev (arg_X_train a) (arg_y_train a) (arg_batch_size a)
             (arg_threads a) of
        Inl e \<Rightarrow> (Some e, w)
      | Inr train_set_loader \<Rightarrow>
     (case get_dataset_loader ev (arg_X_valid a) (arg_y_valid a) (arg_valid_batch_size a)
             (arg_threads a) of
        Inl e \<Rightarrow> (Some e, w)
      | Inr valid_set_loader \<Rightarrow>
     (case build_net ev (arg_warm_start a) dev of
        Inl e \<Rightarrow> (Some e, w)
      | Inr st \<Rightarrow>
     (case get_optimizer (arg_lr a) (arg_l2 a) of
        Inl e \<Rightarrow> (Some e, w\<lparr>w_net := Some st\<rparr>)
      | Inr rate \<Rightarrow>
          (let (cfg, sched) = get_lr_scheduler (env_threshold ev) (env_mode ev) rate
                                (arg_patience a);
               (r, s) = run_epochs c a ev cfg train_set_loader valid_set_loader
                          (epoch_range (arg_epochs a))
                          \<lparr>l_net = st, l_sched = sched, l_files = w_files w,
                           l_plots = w_plots w, l_history = w_history w\<rparr>
           in (r, w\<lparr>w_net := Some (l_net s), w_scheduler := Some (l_sched s),
                    w_files := l_files s, w_plots := l_plots s,
                    w_history := l_history s\<rparr>))))))"

text \<open>The script, run on a file system: the exception that ends it, if any, and the world left.\<close>

definition main ::
  "('st, 'x) collab \<Rightarrow> args \<Rightarrow> ('st, 'x) env \<Rightarrow> 'st fs \<Rightarrow> error option \<times> 'st world" where
  "main c a ev fs =
     (case seed (arg_seed a) (initial_world fs) of
        (Some e, w) \<Rightarrow> (Some e, w)
      | (None, w1) \<Rightarrow>
     (case (if arg_visdom a then setup_visdom ev (arg_env a) w1 else (None, w1)) of
        (Some e, w) \<Rightarrow> (Some e, w)
      | (None, w2) \<Rightarrow>
     (case setup_device (arg_cuda a) (env_cuda_is_available ev) of
        Inl e \<Rightarrow> (Some e, w2)
      | Inr dev \<Rightarrow> start_training c a ev dev w2)))"

section \<open>A small instance\<close>

text \<open>
  Collaborators small enough to run by hand: the net has one parameter \<open>w\<close> and one
  label, its logit for the input \<open>x\<close> is \<open>w * x\<close>; the objective is the squared error,
  which refuses an output of another shape than the target; the optimizer is plain
  gradient descent.
\<close>

definition toy_forward :: "real \<Rightarrow> real list \<Rightarrow> tensor" where
  "toy_forward w xs = map (\<lambda>x. [w * x]) xs"

definition squared_error :: "tensor \<Rightarrow> tensor \<Rightarrow> error + real" where
  "squared_error output target =
     (if map length output \<noteq> map length target then Inl ValueError
      else Inr (sum_list (map2 (\<lambda>o_row t_row. sum_list (map2 (\<lambda>v t. (v - t)\<^sup>2) o_row t_row))
                            output target)))"

definition descent_step :: "real \<Rightarrow> real \<Rightarrow> real list \<Rightarrow> tensor \<Rightarrow> real" where
  "descent_step rate w xs target =
     w - rate * sum_list (map2 (\<lambda>x t_row. sum_list (map (\<lambda>t. 2 * (w * x - t) * x) t_row))
                            xs target)"

definition toy :: "(real, real) collab" where
  "toy = \<lparr>forward_train = toy_forward, forward_eval = toy_forward,
          objective = squared_error, opt_step = descent_step\<rparr>"

definition batch_a :: "real batch" where
  "batch_a = [(1, [1])]"

definition batch_b :: "real batch" where
  "batch_b = [(1, [3])]"

definition batch_v :: "real batch" where
  "batch_v = [(2, [1]), (- 1, [1])]"

text \<open>
  A stand-in for the rendering of a float: the integer part and one decimal digit, as
  Python writes a value that is not negative and has one decimal digit.
\<close>

definition toy_repr :: "real \<Rightarrow> string" where
  "toy_repr v = str_nat (nat \<lfloor>v\<rfloor>) @ ''.'' @ str_nat (nat \<lfloor>v * 10\<rfloor> mod 10)"

text \<open>
  A run of three epochs on the small instance: two training batches, one validation
  batch, patience 0, nothing on the file system.
\<close>

definition toy_args :: args where
  "toy_args =
     \<lparr>arg_batch_size = 1, arg_valid_batch_size = 2, arg_epochs = 3, arg_lr = 1 / 2,
      arg_l2 = 0, arg_patience = 0, arg_warm_start = [], arg_cuda = False,
      arg_visdom = False, arg_env = ''NeuralSEA'', arg_X_train = ''X_train'',
      arg_y_train = ''y_train'', arg_X_valid = ''X_valid'', arg_y_valid = ''y_valid'',
      arg_threads = 4, arg_pth_dir = ''checkpoints'', arg_seed = 42\<rparr>"

definition toy_load_set ::
  "string \<Rightarrow> string \<Rightarrow> int \<Rightarrow> int \<Rightarrow> error + (nat \<Rightarrow> real batch list)" where
  "toy_load_set X_path y_path batch_size threads =
     (if X_path = ''X_train'' then Inr (\<lambda>epoch. [batch_a, batch_b])
      else if X_path = ''X_valid'' then Inr (\<lambda>epoch. [batch_v])
      else Inl FileNotFoundError)"

definition no_visdom :: "string \<Rightarrow> error option" where
  "no_visdom name = None"

definition no_warm_start :: "string \<Rightarrow> error + real" where
  "no_warm_start path = Inl FileNotFoundError"

definition toy_env :: "(real, real) env" where
  "toy_env =
     \<lparr>env_cuda_is_available = False, env_visdom = no_visdom, env_load_set = toy_load_set,
      env_torch_load = no_warm_start, env_fresh_net = 0, env_threshold = 1 / 10000, env_mode = Rel,
      env_float_repr = toy_repr\<rparr>"

text \<open>The same command line with \<^verbatim>\<open>--cuda\<close>.\<close>

definition toy_args_cuda :: args where
  "toy_args_cuda = toy_args\<lparr>arg_cuda := True\<rparr>"

section \<open>Properties of the validate step\<close>

lemma exp_pos1: "0 < 1 + exp (- x :: real)"
  by (simp add: add_pos_pos)

lemma sigmoid_half: "(1 / 2 < sigmoid x) = (0 < x)"
proof -
  have "(1 / 2 < sigmoid x) = (1 + exp (- x) < 2)"
    unfolding sigmoid_def using exp_pos1[of x] by (simp add: field_simps)
  also have "\<dots> = (exp (- x) < exp 0)" by simp
  also have "\<dots> = (0 < x)" by (simp only: exp_less_cancel_iff) simp
  finally show ?thesis .
qed

lemma sigmoid_lt_half: "(sigmoid x < 1 / 2) = (x < 0)"
proof -
  have "(sigmoid x < 1 / 2) = (2 < 1 + exp (- x))"
    unfolding sigmoid_def using exp_pos1[of x] by (simp add: field_simps)
  also have "\<dots> = (exp 0 < exp (- x))" by simp
  also have "\<dots> = (x < 0)" by (simp only: exp_less_cancel_iff) simp
  finally show ?thesis .
qed

lemma sigmoid_range: "0 < sigmoid x \<and> sigmoid x < 1"
  unfolding sigmoid_def using exp_pos1[of x] by (simp add: field_simps)

lemma torch_round_sigmoid: "torch_round (sigmoid x) = (if 0 < x then 1 else 0)"
proof -
  have f: "\<lfloor>sigmoid x\<rfloor> = 0" using sigmoid_range[of x] by (simp add: floor_eq_iff)
  show ?thesis
    using sigmoid_half[of x] sigmoid_lt_half[of x]
    by (auto simp: torch_round_def round_half_even_def f Let_def)
qed











section \<open>Properties of the train step\<close>

lemma train_loop_sum:
  "batch_losses c lr bs st = Inr ls \<Longrightarrow>
   fst (train_loop c lr bs acc st) = None
   \<and> fst (snd (train_loop c lr bs acc st)) = acc + sum_list ls
   \<and> length ls = length bs"
proof (induction bs arbitrary: st acc ls)
  case Nil
  then show ?case by simp
next
  case (Cons data rest)
  from Cons.prems obtain loss ls' where
    l: "objective c (forward_train c st (input_of data)) (target_of data) = Inr loss" and
    r: "batch_losses c lr rest (opt_step c lr st (input_of data) (target_of data)) = Inr ls'" and
    ls: "ls = loss # ls'"
    by (auto split: sum.splits)
  show ?case
    using Cons.IH[OF r, of "acc + loss"] l
    by (simp add: ls Let_def add.assoc)
qed

lemma rounded_mean_mset: "mset ls' = mset ls \<Longrightarrow> rounded_mean ls' = rounded_mean ls"
proof -
  assume m: "mset ls' = mset ls"
  have s: "sum_list ls' = sum_list ls"
    using m by (metis sum_mset_sum_list)
  have n: "length ls' = length ls"
    using m by (metis size_mset)
  show ?thesis by (simp add: rounded_mean_def s n)
qed

lemma py_round_5_2: "py_round (5 / 2) 4 = 5 / 2"
  by (simp add: py_round_def round_half_even_def Let_def)

text \<open>
  C2, as the code has it. For a loader that yields at least one batch and an objective
  that raises on none of them, the train step returns the arithmetic mean of the
  objective values of the batches, rounded to 4 decimals; the value is the same for any
  reordering of these objective values (in exact arithmetic).
\<close>

theorem train_returns_rounded_mean:
  assumes "train_set_loader \<noteq> []"
    and "batch_losses c lr train_set_loader st = Inr ls"
  shows "fst (train c epoch lr st train_set_loader) = Inr (rounded_mean ls)
         \<and> (mset ls' = mset ls \<longrightarrow> rounded_mean ls' = rounded_mean ls)"
proof -
  obtain r acc st' where t: "train_loop c lr train_set_loader 0 st = (r, acc, st')"
    by (cases "train_loop c lr train_set_loader 0 st") auto
  have "r = None \<and> acc = sum_list ls \<and> length ls = length train_set_loader"
    using train_loop_sum[OF assms(2), of 0] t by simp
  then have "fst (train c epoch lr st train_set_loader) = Inr (rounded_mean ls)"
    using assms(1) t by (simp add: train_def py_div_def rounded_mean_def)
  then show ?thesis using rounded_mean_mset by blast
qed

theorem train_returns_rounded_mean_witness:
  "[batch_a, batch_b] \<noteq> []
   \<and> batch_losses toy (1 / 2) [batch_a, batch_b] 0 = Inr [1, 4]
   \<and> fst (train toy 1 (1 / 2) 0 [batch_a, batch_b]) = Inr (5 / 2)
   \<and> mset [4, 1] = mset [1, 4 :: real]
   \<and> rounded_mean [4, 1] = rounded_mean [1, 4]"
proof -
  have l: "batch_losses toy (1 / 2) [batch_a, batch_b] 0 = Inr [1, 4]"
    by (simp add: toy_def toy_forward_def squared_error_def descent_step_def batch_a_def
        batch_b_def input_of_def target_of_def)
  have m: "mset [4, 1] = mset [1, 4 :: real]" by simp
  have r: "rounded_mean [1, 4] = 5 / 2"
    by (simp add: rounded_mean_def py_round_5_2)
  show ?thesis
    using train_returns_rounded_mean [of "[batch_a, batch_b]" toy "1 / 2" 0 "[1, 4]" 1 "[4, 1]"] l m r
    by simp
qed

text \<open>
  C2 as stated fails: the parameters are updated after every batch, so the objective
  value of a batch depends on the batches processed before it, and processing the same
  two batches in the other order returns another mean.
\<close>

theorem train_order_counterexample:
  "fst (train toy 1 (1 / 2) 0 [batch_a, batch_b]) = Inr (5 / 2)
   \<and> fst (train toy 1 (1 / 2) 0 [batch_b, batch_a]) = Inr (13 / 2)"
  by (simp add: train_def py_div_def toy_def toy_forward_def squared_error_def descent_step_def
      batch_a_def batch_b_def input_of_def target_of_def py_round_def round_half_even_def Let_def)

section \<open>Loaders that yield no batch\<close>

lemma validate_toy_v: "validate toy 1 [batch_v] = Inr (5, Fin (1 / 2))"
  by (simp add: validate_def py_div_def toy_def toy_forward_def squared_error_def
      batch_v_def input_of_def target_of_def batch_accuracy_def torch_div_def
      prod_last_dim_def eq_prediction_def torch_round_sigmoid py_round_def
      round_half_even_def Let_def)

text \<open>
  C10. On a loader that yields no batch, the train step and the validate step both raise
  ZeroDivisionError: the accumulated sum is divided by the number of batches with no
  guard. So a call that returns a value had at least one batch; and on at least one batch,
  when no collaborator raises, both return their rounded means.
\<close>

theorem empty_loader_division_by_zero:
  "train c epoch lr st [] = (Inl ZeroDivisionError, st)
   \<and> validate c st [] = Inl ZeroDivisionError
   \<and> (fst (train c epoch lr st loader) = Inr v \<longrightarrow> loader \<noteq> [])
   \<and> (validate c st loader = Inr r \<longrightarrow> loader \<noteq> [])
   \<and> (loader \<noteq> [] \<and> fst (train_loop c lr loader 0 st) = None
        \<longrightarrow> fst (train c epoch lr st loader)
            = Inr (py_round (fst (snd (train_loop c lr loader 0 st)) / real (length loader)) 4))
   \<and> (loader \<noteq> [] \<and> validate_loop c st loader 0 (Fin 0) = Inr (l, a)
        \<longrightarrow> (\<exists>acc. validate c st loader
                   = Inr (py_round (l / real (length loader)) 4, acc)))"
proof -
  have t: "train c epoch lr st [] = (Inl ZeroDivisionError, st)"
    by (simp add: train_def py_div_def)
  have v: "validate c st [] = Inl ZeroDivisionError"
    by (simp add: validate_def py_div_def)
  have t2: "fst (train c epoch lr st loader) = Inr v \<longrightarrow> loader \<noteq> []"
    using t by auto
  have v2: "validate c st loader = Inr r \<longrightarrow> loader \<noteq> []"
    using v by auto
  have t3: "loader \<noteq> [] \<and> fst (train_loop c lr loader 0 st) = None
        \<longrightarrow> fst (train c epoch lr st loader)
            = Inr (py_round (fst (snd (train_loop c lr loader 0 st)) / real (length loader)) 4)"
    by (cases "train_loop c lr loader 0 st") (auto simp: train_def py_div_def)
  have v3: "loader \<noteq> [] \<and> validate_loop c st loader 0 (Fin 0) = Inr (l, a)
        \<longrightarrow> (\<exists>acc. validate c st loader
                   = Inr (py_round (l / real (length loader)) 4, acc))"
    by (cases "length loader"; cases a) (auto simp: validate_def py_div_def)
  from t v t2 v2 t3 v3 show ?thesis by blast
qed


theorem empty_loader_division_by_zero_witness:
  "train toy 1 (1 / 2) 1 [] = (Inl ZeroDivisionError, 1)
   \<and> validate toy 1 [] = Inl ZeroDivisionError
   \<and> [batch_v] \<noteq> []
   \<and> fst (train_loop toy (1 / 2) [batch_v] 0 1) = None
   \<and> fst (train toy 1 (1 / 2) 1 [batch_v]) = Inr 5
   \<and> validate toy 1 [batch_v] = Inr (5, Fin (1 / 2))"
proof -
  have l: "train_loop toy (1 / 2) [batch_v] 0 1 = (None, 5, - 3)"
    by (simp add: toy_def toy_forward_def squared_error_def
        descent_step_def batch_v_def input_of_def target_of_def Let_def)
  have r: "py_round 5 4 = 5"
    by (simp add: py_round_def round_half_even_def Let_def)
  show ?thesis
    using empty_loader_division_by_zero
      [where c = toy and epoch = 1 and lr = "1 / 2" and st = 1 and loader = "[batch_v]"]
      l r validate_toy_v
    by simp
qed

section \<open>Properties of the plateau scheduler\<close>

lemma scheduler_step_reduces:
  "scheduler_step cfg L s =
     (if reduces cfg L s
      then s\<lparr>current_rate := current_rate s * reduction_factor, wait_counter := 0\<rparr>
      else if is_better cfg L (best_loss s)
      then s\<lparr>best_loss := Some L, wait_counter := 0\<rparr>
      else s\<lparr>wait_counter := wait_counter s + 1\<rparr>)"
  by (simp add: scheduler_step_def reduces_def)

text \<open>With a threshold of 0, every strictly decreasing sequence improves at each step.\<close>

lemma strictly_decreasing_improving:
  "threshold cfg = 0 \<Longrightarrow> sorted_wrt (\<lambda>x y. y < x) (b # Ls) \<Longrightarrow> improving cfg (Some b) Ls"
proof (induction Ls arbitrary: b)
  case Nil
  show ?case by simp
next
  case (Cons L Ls)
  from Cons.prems(2) have lt: "L < b" and rest: "sorted_wrt (\<lambda>x y. y < x) (L # Ls)"
    by auto
  have "is_better cfg L (Some b)"
    using lt Cons.prems(1) by (cases "mode cfg") simp_all
  with Cons.IH[OF Cons.prems(1) rest] show ?case by simp
qed

text \<open>
  C3, as the scheduler has it. For every validation-loss sequence in which each epoch's
  loss is lower than the best loss so far by more than the threshold, the learning rate
  never changes: each loss counts as an improvement and becomes the best loss, the wait
  counter is 0 after every epoch, and no reduction is triggered.
\<close>

theorem improving_losses_keep_rate:
  "improving cfg (best_loss s) Ls \<Longrightarrow>
     map current_rate (scheduler_states cfg s Ls) = replicate (Suc (length Ls)) (current_rate s)
   \<and> reductions cfg s Ls = replicate (length Ls) False
   \<and> map wait_counter (tl (scheduler_states cfg s Ls)) = replicate (length Ls) 0
   \<and> map best_loss (tl (scheduler_states cfg s Ls)) = map Some Ls"
proof (induction Ls arbitrary: s)
  case Nil
  show ?case by simp
next
  case (Cons L Ls)
  let ?s = "scheduler_step cfg L s"
  from Cons.prems have b: "is_better cfg L (best_loss s)" and
    i: "improving cfg (Some L) Ls" by simp_all
  have st: "?s = s\<lparr>best_loss := Some L, wait_counter := 0\<rparr>"
    using b by (simp add: scheduler_step_def)
  have i': "improving cfg (best_loss ?s) Ls" using i by (simp add: st)
  have r: "\<not> reduces cfg L s" using b by (simp add: reduces_def)
  have h: "scheduler_states cfg ?s Ls \<noteq> []" by (cases Ls) simp_all
  have hd: "hd (scheduler_states cfg ?s Ls) = ?s" by (cases Ls) simp_all
  have w: "map wait_counter (scheduler_states cfg ?s Ls)
             = wait_counter ?s # map wait_counter (tl (scheduler_states cfg ?s Ls))"
    using h hd by (cases "scheduler_states cfg ?s Ls") simp_all
  have bl: "map best_loss (scheduler_states cfg ?s Ls)
             = best_loss ?s # map best_loss (tl (scheduler_states cfg ?s Ls))"
    using h hd by (cases "scheduler_states cfg ?s Ls") simp_all
  show ?case
    using Cons.IH[OF i'] r w bl by (simp add: st)
qed

theorem improving_losses_keep_rate_witness:
  "improving default_config (best_loss default_start) [1, 9 / 10, 8 / 10]
   \<and> map current_rate (scheduler_states default_config default_start [1, 9 / 10, 8 / 10])
       = [5 / 10000, 5 / 10000, 5 / 10000, 5 / 10000]
   \<and> reductions default_config default_start [1, 9 / 10, 8 / 10] = [False, False, False]"
proof -
  have i: "improving default_config (best_loss default_start) [1, 9 / 10, 8 / 10]"
    by (simp add: default_config_def default_start_def get_lr_scheduler_def)
  have r: "current_rate default_start = 5 / 10000"
    by (simp add: default_start_def get_lr_scheduler_def)
  show ?thesis
    using improving_losses_keep_rate [OF i] i r
    by (simp add: numeral_3_eq_3)
qed

text \<open>
  C3 as stated fails: a sequence that strictly decreases by less than the threshold does
  not improve. With the defaults (patience 5, relative threshold 0.0001), seven losses
  falling from 10 by 0.0001 per epoch stay at or above \<open>10 * (1 - 0.0001)\<close>, so the six
  after the first are no improvement and the seventh epoch reduces the rate.
\<close>

theorem strictly_decreasing_counterexample:
  "sorted_wrt (<) (rev slow_descent)
   \<and> reductions default_config default_start slow_descent
       = [False, False, False, False, False, False, True]
   \<and> map current_rate (scheduler_states default_config default_start slow_descent)
       = [5 / 10000, 5 / 10000, 5 / 10000, 5 / 10000, 5 / 10000, 5 / 10000, 5 / 10000,
          5 / 100000]"
  by (simp add: slow_descent_def default_config_def default_start_def get_lr_scheduler_def
      reduces_def scheduler_step_def reduction_factor_def)

text \<open>
  C4. On an epoch whose validation loss is not an improvement on the best loss, the
  scheduler increments the wait counter, and when the counter then exceeds the patience
  it multiplies the rate by 0.1 and resets the counter to 0. With patience 2 and the
  losses 1.0, 0.9, 0.95, 0.96, 0.97 (any threshold from 0 up to, not including, 0.1),
  exactly one reduction occurs, on epoch 5.
\<close>

theorem plateau_reduces_rate:
  "(\<not> is_better cfg L (best_loss s) \<longrightarrow>
      scheduler_step cfg L s =
        (if patience cfg < int (wait_counter s + 1)
         then s\<lparr>current_rate := current_rate s * (1 / 10), wait_counter := 0\<rparr>
         else s\<lparr>wait_counter := wait_counter s + 1\<rparr>))
   \<and> (0 \<le> thr \<and> thr < 1 / 10 \<longrightarrow>
        reductions (fst (get_lr_scheduler thr m rate 2)) (snd (get_lr_scheduler thr m rate 2))
            scenario_losses = [False, False, False, False, True]
        \<and> map current_rate (scheduler_states (fst (get_lr_scheduler thr m rate 2))
              (snd (get_lr_scheduler thr m rate 2)) scenario_losses)
            = [rate, rate, rate, rate, rate, rate * (1 / 10)]
        \<and> map wait_counter (scheduler_states (fst (get_lr_scheduler thr m rate 2))
              (snd (get_lr_scheduler thr m rate 2)) scenario_losses)
            = [0, 0, 0, 1, 2, 0])"
proof -
  have a: "\<not> is_better cfg L (best_loss s) \<longrightarrow>
      scheduler_step cfg L s =
        (if patience cfg < int (wait_counter s + 1)
         then s\<lparr>current_rate := current_rate s * (1 / 10), wait_counter := 0\<rparr>
         else s\<lparr>wait_counter := wait_counter s + 1\<rparr>)"
    by (simp add: scheduler_step_def reduction_factor_def)
  have b: "reductions (fst (get_lr_scheduler thr m rate 2)) (snd (get_lr_scheduler thr m rate 2))
            scenario_losses = [False, False, False, False, True]
        \<and> map current_rate (scheduler_states (fst (get_lr_scheduler thr m rate 2))
              (snd (get_lr_scheduler thr m rate 2)) scenario_losses)
            = [rate, rate, rate, rate, rate, rate * (1 / 10)]
        \<and> map wait_counter (scheduler_states (fst (get_lr_scheduler thr m rate 2))
              (snd (get_lr_scheduler thr m rate 2)) scenario_losses)
            = [0, 0, 0, 1, 2, 0]" if t: "0 \<le> thr" "thr < 1 / 10"
  proof (cases m)
    case Rel
    have 1: "9 / 10 < 1 - thr" using t by simp
    have 2: "\<not> 95 / 100 < 9 / 10 * (1 - thr)" using t by simp
    have 3: "\<not> 96 / 100 < 9 / 10 * (1 - thr)" using t by simp
    have 4: "\<not> 97 / 100 < 9 / 10 * (1 - thr)" using t by simp
    show ?thesis
      using 1 2 3 4
      by (simp add: Rel scenario_losses_def get_lr_scheduler_def reduces_def scheduler_step_def
          reduction_factor_def)
  next
    case Abs
    have 1: "9 / 10 < 1 - thr" using t by simp
    have 2: "\<not> 95 / 100 < 9 / 10 - thr" using t by simp
    have 3: "\<not> 96 / 100 < 9 / 10 - thr" using t by simp
    have 4: "\<not> 97 / 100 < 9 / 10 - thr" using t by simp
    show ?thesis
      using 1 2 3 4
      by (simp add: Abs scenario_losses_def get_lr_scheduler_def reduces_def scheduler_step_def
          reduction_factor_def)
  qed
  from a b show ?thesis by blast
qed


theorem plateau_reduces_rate_witness:
  "\<not> is_better default_config 2 (best_loss \<lparr>current_rate = 1, best_loss = Some 1, wait_counter = 5\<rparr>)
   \<and> scheduler_step default_config 2 \<lparr>current_rate = 1, best_loss = Some 1, wait_counter = 5\<rparr>
       = \<lparr>current_rate = 1 / 10, best_loss = Some 1, wait_counter = 0\<rparr>
   \<and> (0 :: real) \<le> 1 / 10000 \<and> (1 :: real) / 10000 < 1 / 10
   \<and> reductions (fst (get_lr_scheduler (1 / 10000) Rel (5 / 10000) 2))
        (snd (get_lr_scheduler (1 / 10000) Rel (5 / 10000) 2)) scenario_losses
       = [False, False, False, False, True]"
proof -
  have n: "\<not> is_better default_config 2
             (best_loss \<lparr>current_rate = 1, best_loss = Some 1, wait_counter = 5\<rparr>)"
    by (simp add: default_config_def get_lr_scheduler_def)
  have p: "patience default_config = 5"
    by (simp add: default_config_def get_lr_scheduler_def)
  show ?thesis
    using plateau_reduces_rate
      [of default_config 2 "\<lparr>current_rate = 1, best_loss = Some 1, wait_counter = 5\<rparr>"
          "1 / 10000" Rel "5 / 10000"] n p
    by simp
qed

section \<open>Properties of the checkpoint step\<close>

subsection \<open>Paths and places\<close>

lemma checkpoint_path_longer:
  "length pth_dir < length (checkpoint_path float_repr pth_dir epoch v)"
proof -
  have n: "checkpoint_name float_repr epoch v \<noteq> [] \<and> hd (checkpoint_name float_repr epoch v) \<noteq> CHR ''/''"
    by (simp add: checkpoint_name_def)
  then show ?thesis
    by (auto simp: checkpoint_path_def os_path_join_def)
qed

lemma dir_error_None: "(dir_error fs ab cur = None) = (node_at fs ab cur = Some Dir)"
  by (auto simp: dir_error_def split: option.splits node.splits)

lemma node_at_keeps_dir:
  "(\<And>k. fs k = Some Dir \<Longrightarrow> fs' k = Some Dir) \<Longrightarrow>
   node_at fs ab cs = Some Dir \<Longrightarrow> node_at fs' ab cs = Some Dir"
  by (auto simp: node_at_def split: if_splits)

lemma walk_keeps:
  assumes "\<And>k. fs k = Some Dir \<Longrightarrow> fs' k = Some Dir"
  shows "walk fs ab cur cs = Inr r \<Longrightarrow> walk fs' ab cur cs = Inr r"
proof (induction cs arbitrary: cur)
  case Nil
  then show ?case by simp
next
  case (Cons c cs)
  from Cons.prems have d: "dir_error fs ab cur = None"
    by (auto split: option.splits)
  then have d': "dir_error fs' ab cur = None"
    using node_at_keeps_dir[of fs fs' ab cur] assms by (simp add: dir_error_None)
  from Cons.prems d Cons.IH d' show ?case by simp
qed

lemma walk_append:
  "walk fs ab cur (xs @ ys) =
     (case walk fs ab cur xs of Inl e \<Rightarrow> Inl e | Inr r \<Rightarrow> walk fs ab r ys)"
  by (induction xs arbitrary: cur) (auto split: option.splits)

lemma walk_empties:
  "list_all (\<lambda>c. c = []) es \<Longrightarrow> walk fs ab cur es = Inr r \<Longrightarrow>
   r = cur \<and> (es \<noteq> [] \<longrightarrow> node_at fs ab cur = Some Dir)"
proof (induction es)
  case Nil
  then show ?case by simp
next
  case (Cons c es)
  from Cons.prems(2) have d: "dir_error fs ab cur = None" by (auto split: option.splits)
  with Cons show ?case by (auto simp: dir_error_None)
qed

lemma walk_empties_ok:
  "list_all (\<lambda>c. c = []) es \<Longrightarrow> node_at fs ab cur = Some Dir \<Longrightarrow> walk fs ab cur es = Inr cur"
  by (induction es) (auto simp: dir_error_None[symmetric])

lemma strip_split:
  "\<exists>es. cs = strip_trailing cs @ es \<and> list_all (\<lambda>c. c = []) es"
proof -
  let ?P = "\<lambda>c :: string. c = []"
  have "cs = rev (rev cs)" by simp
  also have "\<dots> = rev (takeWhile ?P (rev cs) @ dropWhile ?P (rev cs))"
    by (simp only: takeWhile_dropWhile_id)
  also have "\<dots> = strip_trailing cs @ rev (takeWhile ?P (rev cs))"
    by (simp only: rev_append strip_trailing_def)
  finally have 1: "cs = strip_trailing cs @ rev (takeWhile ?P (rev cs))" .
  have 2: "list_all ?P (rev (takeWhile ?P (rev cs)))"
    by (auto simp: list_all_iff dest: set_takeWhileD)
  from 1 2 show ?thesis by blast
qed

lemma strip_last: "strip_trailing cs \<noteq> [] \<Longrightarrow> last (strip_trailing cs) \<noteq> []"
proof -
  assume n: "strip_trailing cs \<noteq> []"
  then have d: "dropWhile (\<lambda>c. c = []) (rev cs) \<noteq> []" by (simp add: strip_trailing_def)
  have "last (strip_trailing cs) = hd (dropWhile (\<lambda>c. c = []) (rev cs))"
    using d by (simp add: strip_trailing_def last_rev)
  then show ?thesis using hd_dropWhile[OF d] by simp
qed

lemma walk_error: "walk fs ab cur cs = Inl e \<Longrightarrow> e \<noteq> FileExistsError"
proof (induction cs arbitrary: cur)
  case Nil
  then show ?case by simp
next
  case (Cons c cs)
  then show ?case
    by (auto simp: dir_error_def split: option.splits node.splits)
qed

lemma torch_save_error:
  "torch_save fs net path = Inl e \<Longrightarrow> e \<noteq> FileExistsError"
  by (auto simp: torch_save_def dir_error_def Let_def dest: walk_error
      split: if_splits option.splits node.splits sum.splits)

lemma torch_save_frame:
  "torch_save fs net path = Inr fs' \<Longrightarrow> fs' = fs(path \<mapsto> File net) \<and> fs path \<noteq> Some Dir"
  by (auto simp: torch_save_def Let_def split: if_splits option.splits sum.splits)

lemma os_mkdir_frame:
  "os_mkdir fs p = Inr fs' \<Longrightarrow> \<exists>k. fs k = None \<and> fs' = fs(k \<mapsto> Dir)"
  by (auto simp: os_mkdir_def Let_def node_at_def split: if_splits option.splits sum.splits)

lemma checkpoint_frame:
  assumes "checkpoint float_repr id net d e v fs = (None, fs')"
  shows "fs' (checkpoint_path float_repr d e v) = Some (File net)
         \<and> (\<forall>q. q \<noteq> checkpoint_path float_repr d e v \<longrightarrow> fs q \<noteq> None \<longrightarrow> fs' q = fs q)"
proof -
  let ?p = "checkpoint_path float_repr d e v"
  show ?thesis
  proof (cases "os_path_exists fs d")
    case True
    with assms obtain fs3 where s: "torch_save fs net ?p = Inr fs3" and f: "fs' = fs3"
      by (cases "torch_save fs net ?p") (auto simp: checkpoint_def)
    show ?thesis using torch_save_frame[OF s] f by simp
  next
    case False
    with assms obtain fs2 where m: "os_mkdir fs d = Inr fs2"
      by (cases "os_mkdir fs d") (auto simp: checkpoint_def)
    from os_mkdir_frame[OF m] obtain k where n: "fs k = None" and fs2: "fs2 = fs(k \<mapsto> Dir)"
      by blast
    from assms False m obtain fs3 where s: "torch_save fs2 net ?p = Inr fs3" and f: "fs' = fs3"
      by (cases "torch_save fs2 net ?p") (auto simp: checkpoint_def)
    show ?thesis using torch_save_frame[OF s] f fs2 n by auto
  qed
qed

lemma exists_mkdir:
  assumes "os_path_exists fs p"
  shows "os_mkdir fs p = Inl FileExistsError"
proof -
  let ?ab = "absolute p" and ?cs = "strip_trailing (split_sep p)"
  from assms have ne: "p \<noteq> []" by (simp add: os_path_exists_def)
  from assms obtain r where w: "walk fs ?ab [] (split_sep p) = Inr r" and
    n: "node_at fs ?ab r \<noteq> None"
    by (auto simp: os_path_exists_def split: sum.splits)
  from strip_split[of "split_sep p"] obtain es where
    sp: "split_sep p = ?cs @ es" and e: "list_all (\<lambda>c. c = []) es" by blast
  show ?thesis
  proof (cases "?cs = []")
    case True
    with ne show ?thesis by (simp add: os_mkdir_def)
  next
    case False
    then have cs: "?cs = butlast ?cs @ [last ?cs]" by simp
    have "split_sep p = butlast ?cs @ (last ?cs # es)"
      using sp cs by (metis append_Cons append_Nil append_assoc)
    with w have w2: "walk fs ?ab [] (butlast ?cs @ (last ?cs # es)) = Inr r" by simp
    then obtain cur where p1: "walk fs ?ab [] (butlast ?cs) = Inr cur" and
      p2: "walk fs ?ab cur (last ?cs # es) = Inr r"
      by (auto simp: walk_append split: sum.splits)
    from p2 have d: "dir_error fs ?ab cur = None" by (auto split: option.splits)
    show ?thesis
    proof (cases "last ?cs = ''.'' \<or> last ?cs = ''..''")
      case True
      with ne False p1 d show ?thesis by (simp add: os_mkdir_def Let_def)
    next
      case normal: False
      have l: "last ?cs \<noteq> []" using strip_last[OF False] .
      from p2 d normal l have "walk fs ?ab (cur @ [last ?cs]) es = Inr r" by simp
      from walk_empties[OF e this] have "r = cur @ [last ?cs]" by simp
      with n have "node_at fs ?ab (cur @ [last ?cs]) \<noteq> None" by simp
      with ne False p1 d normal show ?thesis by (simp add: os_mkdir_def Let_def)
    qed
  qed
qed

lemma mkdir_exists:
  assumes "os_mkdir fs p = Inr fs1"
  shows "os_path_exists fs1 p"
proof -
  let ?ab = "absolute p" and ?cs = "strip_trailing (split_sep p)"
  from assms have ne: "p \<noteq> []" and cs: "?cs \<noteq> []"
    by (auto simp: os_mkdir_def Let_def split: if_splits)
  from assms ne cs obtain cur where
    p1: "walk fs ?ab [] (butlast ?cs) = Inr cur" and
    d: "dir_error fs ?ab cur = None" and
    normal: "last ?cs \<noteq> ''.''" "last ?cs \<noteq> ''..''" and
    n: "node_at fs ?ab (cur @ [last ?cs]) = None" and
    f: "fs1 = fs(place_key ?ab (cur @ [last ?cs]) \<mapsto> Dir)"
    by (auto simp: os_mkdir_def Let_def split: if_splits sum.splits option.splits)
  let ?t = "cur @ [last ?cs]"
  from n have special: "\<not> (?t = [] \<or> (\<not> ?ab \<and> list_all (\<lambda>c. c = ''..'') ?t))" and
    k: "fs (place_key ?ab ?t) = None"
    by (auto simp: node_at_def split: if_splits)
  have keep: "\<And>k. fs k = Some Dir \<Longrightarrow> fs1 k = Some Dir" using k f by auto
  have t: "node_at fs1 ?ab ?t = Some Dir"
    using special f by (simp add: node_at_def)
  have p1': "walk fs1 ?ab [] (butlast ?cs) = Inr cur" using walk_keeps[OF keep p1] .
  have d': "dir_error fs1 ?ab cur = None"
    using d node_at_keeps_dir[of fs fs1 ?ab cur] keep by (simp add: dir_error_None)
  from strip_split[of "split_sep p"] obtain es where
    sp: "split_sep p = ?cs @ es" and e: "list_all (\<lambda>c. c = []) es" by blast
  have l: "last ?cs \<noteq> []" using strip_last[OF cs] .
  have "?cs = butlast ?cs @ [last ?cs]" using cs by simp
  then have sp2: "split_sep p = butlast ?cs @ (last ?cs # es)"
    using sp by (metis append_Cons append_Nil append_assoc)
  have "walk fs1 ?ab [] (split_sep p) = walk fs1 ?ab [] (butlast ?cs @ (last ?cs # es))"
    by (rule arg_cong[OF sp2])
  also have "\<dots> = walk fs1 ?ab cur (last ?cs # es)"
    by (simp add: walk_append p1')
  also have "\<dots> = walk fs1 ?ab ?t es" using d' normal l by simp
  also have "\<dots> = Inr ?t" using walk_empties_ok[OF e t] .
  finally show ?thesis using ne t by (simp add: os_path_exists_def)
qed

lemma exists_write:
  assumes "os_path_exists fs p" and "fs q \<noteq> Some Dir"
  shows "os_path_exists (fs(q \<mapsto> File n)) p"
proof -
  let ?ab = "absolute p" and ?fs = "fs(q \<mapsto> File n)"
  from assms(1) have ne: "p \<noteq> []" by (simp add: os_path_exists_def)
  from assms(1) obtain r where w: "walk fs ?ab [] (split_sep p) = Inr r" and
    nd: "node_at fs ?ab r \<noteq> None"
    by (auto simp: os_path_exists_def split: sum.splits)
  have keep: "\<And>k. fs k = Some Dir \<Longrightarrow> ?fs k = Some Dir" using assms(2) by auto
  have w': "walk ?fs ?ab [] (split_sep p) = Inr r" using walk_keeps[OF keep w] .
  have "node_at ?fs ?ab r \<noteq> None" using nd by (auto simp: node_at_def split: if_splits)
  with ne w' show ?thesis by (simp add: os_path_exists_def)
qed

lemma save_again:
  assumes "torch_save fs net path = Inr fs'"
  shows "torch_save fs' net' path = Inr (fs'(path \<mapsto> File net'))"
proof -
  let ?ab = "absolute path" and ?cs = "split_sep path"
  from assms have ne: "path \<noteq> []" by (auto simp: torch_save_def split: if_splits)
  from assms ne obtain cur where
    p1: "walk fs ?ab [] (butlast ?cs) = Inr cur" and
    d: "dir_error fs ?ab cur = None" and
    normal: "last ?cs \<noteq> []" "last ?cs \<noteq> ''.''" "last ?cs \<noteq> ''..''" and
    nf: "fs path \<noteq> Some Dir" and
    nn: "node_at fs ?ab (cur @ [last ?cs]) \<noteq> Some Dir" and
    f: "fs' = fs(path \<mapsto> File net)"
    by (auto simp: torch_save_def Let_def split: if_splits sum.splits option.splits)
  have keep: "\<And>k. fs k = Some Dir \<Longrightarrow> fs' k = Some Dir" using nf f by auto
  have p1': "walk fs' ?ab [] (butlast ?cs) = Inr cur" using walk_keeps[OF keep p1] .
  have d': "dir_error fs' ?ab cur = None"
    using d node_at_keeps_dir[of fs fs' ?ab cur] keep by (simp add: dir_error_None)
  have nf': "fs' path \<noteq> Some Dir" using f by simp
  have nn': "node_at fs' ?ab (cur @ [last ?cs]) \<noteq> Some Dir"
    using nn normal f by (auto simp: node_at_def list_all_iff split: if_splits)
  show ?thesis
    using ne p1' d' normal nf' nn' by (simp add: torch_save_def Let_def)
qed

lemma split_simple: "CHR ''/'' \<notin> set b \<Longrightarrow> split_sep b = [b]"
  by (induction b) auto

lemma split_simple_sep:
  "CHR ''/'' \<notin> set b \<Longrightarrow> split_sep (b @ CHR ''/'' # r) = b # split_sep r"
  by (induction b) auto

subsection \<open>A directory with a plain name\<close>

lemma digit_cases: "d < 10 \<Longrightarrow> d \<in> {0, 1, 2, 3, 4, 5, 6, 7, 8, 9 :: nat}"
  by auto

lemma digit_char_digit: "d < 10 \<Longrightarrow> digit_char d \<in> set ''0123456789''"
  using digit_cases[of d] by (auto simp: digit_char_def)

lemma str_nat_digits: "set (str_nat n) \<subseteq> set ''0123456789''"
proof (induction n rule: str_nat.induct)
  case (1 n)
  show ?case
  proof (cases "n < 10")
    case True
    then show ?thesis using digit_char_digit[of n] by (subst str_nat.simps) simp
  next
    case False
    have m: "n mod 10 < 10" by simp
    show ?thesis
      using 1[OF False] digit_char_digit[OF m] False
      by (subst str_nat.simps) simp
  qed
qed

lemma checkpoint_name_plain:
  "CHR ''/'' \<notin> set (float_repr v) \<Longrightarrow>
   CHR ''/'' \<notin> set (checkpoint_name float_repr e v)
   \<and> checkpoint_name float_repr e v \<noteq> []
   \<and> checkpoint_name float_repr e v \<noteq> ''.''
   \<and> checkpoint_name float_repr e v \<noteq> ''..''
   \<and> hd (checkpoint_name float_repr e v) \<noteq> CHR ''/''"
  using str_nat_digits[of e] by (auto simp: checkpoint_name_def)

lemma simple_relative: "b \<noteq> [] \<Longrightarrow> CHR ''/'' \<notin> set b \<Longrightarrow> \<not> absolute b \<and> \<not> absolute (b @ r)"
  by (cases b) (auto simp: absolute_def)

lemma simple_node:
  "b \<noteq> [] \<Longrightarrow> b \<noteq> ''..'' \<Longrightarrow> node_at fs False [b] = fs b"
  by (simp add: node_at_def place_key_def)

lemma simple_exists:
  assumes "b \<noteq> []" "CHR ''/'' \<notin> set b" "b \<noteq> ''.''" "b \<noteq> ''..''"
  shows "os_path_exists fs b = (fs b \<noteq> None)"
    and "os_path_exists fs (b @ ''/'') = (fs b = Some Dir)"
proof -
  have r: "\<not> absolute b" "\<not> absolute (b @ ''/'')" using simple_relative[OF assms(1,2)] by auto
  have top: "dir_error fs False [] = None" by (simp add: dir_error_def node_at_def)
  show "os_path_exists fs b = (fs b \<noteq> None)"
    using assms r top by (simp add: os_path_exists_def split_simple simple_node)
  have sp: "split_sep (b @ ''/'') = [b, []]"
    using split_simple_sep[OF assms(2), of "[]"] by simp
  show "os_path_exists fs (b @ ''/'') = (fs b = Some Dir)"
    using assms r top
    by (auto simp: os_path_exists_def sp simple_node dir_error_def
        split: option.splits node.splits)
qed

lemma simple_mkdir:
  assumes "b \<noteq> []" "CHR ''/'' \<notin> set b" "b \<noteq> ''.''" "b \<noteq> ''..''"
    and "fs b = None" and "d = b \<or> d = b @ ''/''"
  shows "os_mkdir fs d = Inr (fs(b \<mapsto> Dir))"
proof -
  have r: "\<not> absolute d" using simple_relative[OF assms(1,2)] assms(6) by auto
  have ne: "d \<noteq> []" using assms(1,6) by auto
  have sp: "strip_trailing (split_sep d) = [b]"
    using assms(1,6) split_simple[OF assms(2)] split_simple_sep[OF assms(2), of "[]"]
    by (auto simp: strip_trailing_def)
  have top: "dir_error fs False [] = None" by (simp add: dir_error_def node_at_def)
  show ?thesis
    using assms(1,3,4,5) r ne top
    by (simp add: os_mkdir_def sp Let_def simple_node place_key_def)
qed

lemma simple_path:
  assumes "b \<noteq> []" "CHR ''/'' \<notin> set b" and "d = b \<or> d = b @ ''/''"
  shows "checkpoint_path float_repr d e v = b @ ''/'' @ checkpoint_name float_repr e v"
proof -
  have n: "checkpoint_name float_repr e v \<noteq> [] \<and> hd (checkpoint_name float_repr e v) \<noteq> CHR ''/''"
    by (simp add: checkpoint_name_def)
  have l: "last b \<noteq> CHR ''/''" using assms(1,2) by (metis last_in_set)
  show ?thesis using assms(1,3) n l by (auto simp: checkpoint_path_def os_path_join_def)
qed

lemma simple_save:
  assumes "b \<noteq> []" "CHR ''/'' \<notin> set b" "b \<noteq> ''.''" "b \<noteq> ''..''"
    and "fs b = Some Dir"
    and "CHR ''/'' \<notin> set name" "name \<noteq> []" "name \<noteq> ''.''" "name \<noteq> ''..''"
    and "fs (b @ CHR ''/'' # name) \<noteq> Some Dir"
  shows "torch_save fs net (b @ CHR ''/'' # name) = Inr (fs(b @ CHR ''/'' # name \<mapsto> File net))"
proof -
  let ?p = "b @ CHR ''/'' # name"
  have r: "absolute ?p = False" using simple_relative[OF assms(1,2), of "CHR ''/'' # name"] by simp
  have sp: "split_sep ?p = [b, name]"
    using split_simple_sep[OF assms(2), of name] split_simple[OF assms(6)] by simp
  have top: "dir_error fs False [] = None" by (simp add: dir_error_def node_at_def)
  have d: "dir_error fs False [b] = None"
    using assms(1,4,5) by (simp add: dir_error_None simple_node)
  have n: "node_at fs False [b, name] = fs ?p"
    using assms(4) by (simp add: node_at_def place_key_def)
  show ?thesis
    using assms(1,3,4,7,8,9,10) top d n
    by (simp add: torch_save_def sp r Let_def)
qed

subsection \<open>The directory of the checkpoints\<close>

lemma checkpoint_race:
  "\<not> os_path_exists fs pth_dir \<Longrightarrow> os_path_exists (others fs) pth_dir \<Longrightarrow>
   fst (checkpoint float_repr others net pth_dir epoch v fs) = Some FileExistsError"
  by (simp add: checkpoint_def exists_mkdir)

lemma checkpoint_present:
  "os_path_exists fs pth_dir \<Longrightarrow>
   checkpoint float_repr id net pth_dir epoch v fs =
     (case torch_save fs net (checkpoint_path float_repr pth_dir epoch v) of
        Inl x \<Rightarrow> (Some x, fs)
      | Inr fs' \<Rightarrow> (None, fs'))"
  by (simp add: checkpoint_def)

lemma checkpoint_absent:
  "\<not> os_path_exists fs pth_dir \<Longrightarrow> os_mkdir fs pth_dir = Inr fs1 \<Longrightarrow>
   checkpoint float_repr id net pth_dir epoch v fs =
     (case torch_save fs1 net (checkpoint_path float_repr pth_dir epoch v) of
        Inl x \<Rightarrow> (Some x, fs1)
      | Inr fs' \<Rightarrow> (None, fs'))"
  by (simp add: checkpoint_def)

lemma checkpoint_plain:
  assumes "b \<noteq> []" "CHR ''/'' \<notin> set b" "b \<noteq> ''.''" "b \<noteq> ''..''"
    and "pth_dir = b \<or> pth_dir = b @ ''/''"
    and "fs b = None \<or> fs b = Some Dir"
    and "CHR ''/'' \<notin> set (float_repr v)"
    and "fs (checkpoint_path float_repr pth_dir epoch v) \<noteq> Some Dir"
  shows "checkpoint float_repr id net pth_dir epoch v fs =
           (None, fs(b \<mapsto> Dir, checkpoint_path float_repr pth_dir epoch v \<mapsto> File net))"
proof -
  let ?n = "checkpoint_name float_repr epoch v"
  let ?p = "checkpoint_path float_repr pth_dir epoch v"
  have p: "?p = b @ CHR ''/'' # ?n" using simple_path[OF assms(1,2,5)] by simp
  have n: "CHR ''/'' \<notin> set ?n \<and> ?n \<noteq> [] \<and> ?n \<noteq> ''.'' \<and> ?n \<noteq> ''..''"
    using checkpoint_name_plain[of float_repr v epoch] assms(7) by simp
  have pb: "?p \<noteq> b" using p by simp
  let ?fs1 = "fs(b \<mapsto> Dir)"
  have d1: "?fs1 b = Some Dir" by simp
  have nd: "?fs1 (b @ CHR ''/'' # ?n) \<noteq> Some Dir" using assms(8) p by simp
  have save0: "torch_save ?fs1 net (b @ CHR ''/'' # ?n)
                 = Inr (?fs1(b @ CHR ''/'' # ?n \<mapsto> File net))"
    using n by (intro simple_save[OF assms(1-4) d1 _ _ _ _ nd]) simp_all
  have save: "torch_save ?fs1 net ?p = Inr (?fs1(?p \<mapsto> File net))"
    using save0 by (simp only: p)
  show ?thesis
  proof (cases "os_path_exists fs pth_dir")
    case True
    then have "fs b \<noteq> None" using simple_exists[OF assms(1-4), of fs] assms(5) by auto
    with assms(6) have "fs b = Some Dir" by simp
    then have "?fs1 = fs" by auto
    with True save show ?thesis by (simp add: checkpoint_present)
  next
    case False
    then have "fs b \<noteq> Some Dir" using simple_exists[OF assms(1-4), of fs] assms(5) by auto
    with assms(6) have none: "fs b = None" by simp
    have "os_mkdir fs pth_dir = Inr (fs(b \<mapsto> Dir))"
      using simple_mkdir[of b fs pth_dir] assms(1-5) none by simp
    with False save show ?thesis by (simp add: checkpoint_absent)
  qed
qed

lemma checkpoint_again:
  assumes "fst (checkpoint float_repr id net pth_dir epoch v fs) = None"
  shows "os_path_exists (snd (checkpoint float_repr id net pth_dir epoch v fs)) pth_dir
     \<and> fst (checkpoint float_repr id net' pth_dir epoch v
              (snd (checkpoint float_repr id net pth_dir epoch v fs))) = None"
proof -
  let ?p = "checkpoint_path float_repr pth_dir epoch v"
  have step: "os_path_exists fs2 pth_dir \<Longrightarrow> torch_save fs2 net ?p = Inr fs3 \<Longrightarrow>
      os_path_exists fs3 pth_dir \<and> fst (checkpoint float_repr id net' pth_dir epoch v fs3) = None"
    for fs2 fs3
  proof -
    assume e: "os_path_exists fs2 pth_dir" and s: "torch_save fs2 net ?p = Inr fs3"
    from torch_save_frame[OF s] have f: "fs3 = fs2(?p \<mapsto> File net)" and nd: "fs2 ?p \<noteq> Some Dir"
      by simp_all
    have e3: "os_path_exists fs3 pth_dir" using exists_write[OF e nd] f by simp
    have "torch_save fs3 net' ?p = Inr (fs3(?p \<mapsto> File net'))" using save_again[OF s] .
    with e3 show ?thesis by (simp add: checkpoint_present)
  qed
  show ?thesis
  proof (cases "os_path_exists fs pth_dir")
    case True
    from assms True obtain fs3 where s: "torch_save fs net ?p = Inr fs3"
      by (cases "torch_save fs net ?p") (auto simp: checkpoint_present)
    have "checkpoint float_repr id net pth_dir epoch v fs = (None, fs3)"
      using True s by (simp add: checkpoint_present)
    with step[OF True s] show ?thesis by simp
  next
    case False
    from assms False obtain fs1 where m: "os_mkdir fs pth_dir = Inr fs1"
      by (cases "os_mkdir fs pth_dir") (auto simp: checkpoint_def)
    from assms False m obtain fs3 where s: "torch_save fs1 net ?p = Inr fs3"
      by (cases "torch_save fs1 net ?p") (auto simp: checkpoint_absent)
    have "checkpoint float_repr id net pth_dir epoch v fs = (None, fs3)"
      using False m s by (simp add: checkpoint_absent)
    with step[OF mkdir_exists[OF m] s] show ?thesis by simp
  qed
qed

lemma toy_repr_half: "toy_repr (1 / 2) = ''0.5''"
  by (simp add: toy_repr_def digit_char_def str_nat.simps)

lemma toy_path_half:
  "checkpoint_path toy_repr ''checkpoints/'' (Suc 0) (1 / 2)
     = ''checkpoints/neuralsea-epoch-1-loss-0.5.pth''"
  by (simp add: checkpoint_path_def checkpoint_name_def os_path_join_def toy_repr_half
      digit_char_def str_nat.simps)

text \<open>
  C7, as the code has it. With nothing else touching the directory: when the directory
  exists at the test, the call is the save and nothing more; when it is absent and
  \<^verbatim>\<open>os.mkdir\<close> can create it, it exists afterwards and the call goes on to the save. In
  particular, for a directory with a plain name in the working directory, written with
  or without a trailing separator, absent or already there, the call succeeds and leaves
  the directory and the file. After a call that succeeded the directory exists and the
  same call succeeds again. A directory that is absent at the test and exists when
  \<^verbatim>\<open>os.mkdir\<close> runs makes the call raise FileExistsError; and when \<^verbatim>\<open>os.mkdir\<close>
  raises for another reason (a missing parent), the call raises the same and writes
  nothing.
\<close>

theorem checkpoint_directory:
  "(os_path_exists fs pth_dir \<longrightarrow>
      checkpoint float_repr id net pth_dir epoch v fs =
        (case torch_save fs net (checkpoint_path float_repr pth_dir epoch v) of
           Inl x \<Rightarrow> (Some x, fs)
         | Inr fs' \<Rightarrow> (None, fs')))
   \<and> (\<not> os_path_exists fs pth_dir \<and> os_mkdir fs pth_dir = Inr fs1 \<longrightarrow>
      os_path_exists fs1 pth_dir
      \<and> checkpoint float_repr id net pth_dir epoch v fs =
          (case torch_save fs1 net (checkpoint_path float_repr pth_dir epoch v) of
             Inl x \<Rightarrow> (Some x, fs1)
           | Inr fs' \<Rightarrow> (None, fs')))
   \<and> (b \<noteq> [] \<and> CHR ''/'' \<notin> set b \<and> b \<noteq> ''.'' \<and> b \<noteq> ''..''
        \<and> (pth_dir = b \<or> pth_dir = b @ ''/'')
        \<and> (fs b = None \<or> fs b = Some Dir)
        \<and> CHR ''/'' \<notin> set (float_repr v)
        \<and> fs (checkpoint_path float_repr pth_dir epoch v) \<noteq> Some Dir \<longrightarrow>
      checkpoint float_repr id net pth_dir epoch v fs =
        (None, fs(b \<mapsto> Dir, checkpoint_path float_repr pth_dir epoch v \<mapsto> File net)))
   \<and> (fst (checkpoint float_repr id net pth_dir epoch v fs) = None \<longrightarrow>
      os_path_exists (snd (checkpoint float_repr id net pth_dir epoch v fs)) pth_dir
      \<and> fst (checkpoint float_repr id net' pth_dir epoch v
               (snd (checkpoint float_repr id net pth_dir epoch v fs))) = None)
   \<and> (\<not> os_path_exists fs pth_dir \<and> os_path_exists (others fs) pth_dir \<longrightarrow>
      fst (checkpoint float_repr others net pth_dir epoch v fs) = Some FileExistsError)
   \<and> (\<not> os_path_exists fs pth_dir \<and> os_mkdir fs pth_dir = Inl err \<longrightarrow>
      checkpoint float_repr id net pth_dir epoch v fs = (Some err, fs))"
proof (intro conjI impI)
  assume "os_path_exists fs pth_dir"
  then show "checkpoint float_repr id net pth_dir epoch v fs =
        (case torch_save fs net (checkpoint_path float_repr pth_dir epoch v) of
           Inl x \<Rightarrow> (Some x, fs)
         | Inr fs' \<Rightarrow> (None, fs'))"
    by (rule checkpoint_present)
next
  assume a: "\<not> os_path_exists fs pth_dir \<and> os_mkdir fs pth_dir = Inr fs1"
  then show "os_path_exists fs1 pth_dir" using mkdir_exists by blast
  from a show "checkpoint float_repr id net pth_dir epoch v fs =
          (case torch_save fs1 net (checkpoint_path float_repr pth_dir epoch v) of
             Inl x \<Rightarrow> (Some x, fs1)
           | Inr fs' \<Rightarrow> (None, fs'))"
    by (simp add: checkpoint_absent)
next
  assume "b \<noteq> [] \<and> CHR ''/'' \<notin> set b \<and> b \<noteq> ''.'' \<and> b \<noteq> ''..''
        \<and> (pth_dir = b \<or> pth_dir = b @ ''/'')
        \<and> (fs b = None \<or> fs b = Some Dir)
        \<and> CHR ''/'' \<notin> set (float_repr v)
        \<and> fs (checkpoint_path float_repr pth_dir epoch v) \<noteq> Some Dir"
  then show "checkpoint float_repr id net pth_dir epoch v fs =
        (None, fs(b \<mapsto> Dir, checkpoint_path float_repr pth_dir epoch v \<mapsto> File net))"
    using checkpoint_plain[of b pth_dir fs float_repr v epoch net] by blast
next
  assume a: "fst (checkpoint float_repr id net pth_dir epoch v fs) = None"
  from checkpoint_again[OF a, of net']
  show "os_path_exists (snd (checkpoint float_repr id net pth_dir epoch v fs)) pth_dir"
    and "fst (checkpoint float_repr id net' pth_dir epoch v
               (snd (checkpoint float_repr id net pth_dir epoch v fs))) = None"
    by simp_all
next
  assume "\<not> os_path_exists fs pth_dir \<and> os_path_exists (others fs) pth_dir"
  then show "fst (checkpoint float_repr others net pth_dir epoch v fs) = Some FileExistsError"
    using checkpoint_race[of fs pth_dir others float_repr net epoch v] by simp
next
  assume "\<not> os_path_exists fs pth_dir \<and> os_mkdir fs pth_dir = Inl err"
  then show "checkpoint float_repr id net pth_dir epoch v fs = (Some err, fs)"
    by (simp add: checkpoint_def)
qed

theorem checkpoint_directory_witness:
  "\<not> os_path_exists (empty_fs :: real fs) ''checkpoints/''
   \<and> os_mkdir (empty_fs :: real fs) ''checkpoints/'' = Inr (empty_fs(''checkpoints'' \<mapsto> Dir))
   \<and> os_path_exists ((empty_fs :: real fs)(''checkpoints'' \<mapsto> Dir)) ''checkpoints/''
   \<and> checkpoint toy_repr id (0 :: real) ''checkpoints/'' 1 (1 / 2) empty_fs
       = (None, empty_fs(''checkpoints'' \<mapsto> Dir,
                   ''checkpoints/neuralsea-epoch-1-loss-0.5.pth'' \<mapsto> File 0))
   \<and> os_path_exists ((empty_fs :: real fs)(''checkpoints'' \<mapsto> Dir,
          ''checkpoints/neuralsea-epoch-1-loss-0.5.pth'' \<mapsto> File 0)) ''checkpoints/''
   \<and> checkpoint toy_repr id (3 :: real) ''checkpoints/'' 1 (1 / 2)
         (empty_fs(''checkpoints'' \<mapsto> Dir,
            ''checkpoints/neuralsea-epoch-1-loss-0.5.pth'' \<mapsto> File 0))
       = (case torch_save (empty_fs(''checkpoints'' \<mapsto> Dir,
                 ''checkpoints/neuralsea-epoch-1-loss-0.5.pth'' \<mapsto> File 0)) 3
               ''checkpoints/neuralsea-epoch-1-loss-0.5.pth'' of
            Inl x \<Rightarrow> (Some x, empty_fs(''checkpoints'' \<mapsto> Dir,
                 ''checkpoints/neuralsea-epoch-1-loss-0.5.pth'' \<mapsto> File 0))
          | Inr fs' \<Rightarrow> (None, fs'))
   \<and> fst (checkpoint toy_repr id (3 :: real) ''checkpoints/'' 1 (1 / 2)
            (empty_fs(''checkpoints'' \<mapsto> Dir,
               ''checkpoints/neuralsea-epoch-1-loss-0.5.pth'' \<mapsto> File 0))) = None
   \<and> os_path_exists (creates_dir ''checkpoints'' (empty_fs :: real fs)) ''checkpoints/''
   \<and> fst (checkpoint toy_repr (creates_dir ''checkpoints'') (0 :: real) ''checkpoints/'' 1 (1 / 2)
            empty_fs) = Some FileExistsError
   \<and> \<not> os_path_exists (empty_fs :: real fs) ''a/b''
   \<and> os_mkdir (empty_fs :: real fs) ''a/b'' = Inl FileNotFoundError
   \<and> checkpoint toy_repr id (0 :: real) ''a/b'' 1 (1 / 2) empty_fs
       = (Some FileNotFoundError, empty_fs)"
proof -
  let ?d = "''checkpoints/''" and ?b = "''checkpoints''"
  let ?fs1 = "(empty_fs :: real fs)(?b \<mapsto> Dir)"
  let ?fs2 = "(empty_fs :: real fs)(?b \<mapsto> Dir,
                ''checkpoints/neuralsea-epoch-1-loss-0.5.pth'' \<mapsto> File 0)"
  have b: "?b \<noteq> [] \<and> CHR ''/'' \<notin> set ?b \<and> ?b \<noteq> ''.'' \<and> ?b \<noteq> ''..'' \<and> (?d = ?b \<or> ?d = ?b @ ''/'')"
    by simp
  have e0: "(empty_fs :: real fs) ?b = None" by (simp add: empty_fs_def)
  have a: "\<not> os_path_exists (empty_fs :: real fs) ?d"
    using simple_exists(2)[of ?b "empty_fs :: real fs"] e0 by simp
  have m: "os_mkdir (empty_fs :: real fs) ?d = Inr ?fs1"
    using simple_mkdir[of ?b "empty_fs :: real fs" ?d] e0 by simp
  have c: "creates_dir ?b (empty_fs :: real fs) = ?fs1"
    using simple_mkdir[of ?b "empty_fs :: real fs" ?b] e0 by (simp add: creates_dir_def)
  have r: "CHR ''/'' \<notin> set (toy_repr (1 / 2))" by (simp add: toy_repr_half)
  have p: "(empty_fs :: real fs) (checkpoint_path toy_repr ?d 1 (1 / 2)) \<noteq> Some Dir"
    by (simp add: empty_fs_def)
  note T = checkpoint_directory
      [where fs = "empty_fs :: real fs" and pth_dir = ?d and float_repr = toy_repr and net = 0
         and epoch = 1 and v = "1 / 2" and ?fs1.0 = ?fs1 and b = ?b and net' = 3
         and others = "creates_dir ?b"]
  let ?run = "checkpoint toy_repr id (0 :: real) ?d 1 (1 / 2) empty_fs"
  have e1: "os_path_exists ?fs1 ?d"
    using T[THEN conjunct2, THEN conjunct1] a m by simp
  have k: "?run = (None, ?fs2)"
    using T[THEN conjunct2, THEN conjunct2, THEN conjunct1] b e0 r p
    by (simp add: toy_path_half)
  have i: "os_path_exists (snd ?run) ?d
           \<and> fst (checkpoint toy_repr id (3 :: real) ?d 1 (1 / 2) (snd ?run)) = None"
    using T[THEN conjunct2, THEN conjunct2, THEN conjunct2, THEN conjunct1] k by simp
  have e2: "os_path_exists (creates_dir ?b (empty_fs :: real fs)) ?d" using c e1 by simp
  have x: "fst (checkpoint toy_repr (creates_dir ?b) (0 :: real) ?d 1 (1 / 2) empty_fs)
             = Some FileExistsError"
    using T[THEN conjunct2, THEN conjunct2, THEN conjunct2, THEN conjunct2, THEN conjunct1]
      a e2 by simp
  have e3: "os_path_exists ?fs2 ?d" using i k by simp
  have na: "\<not> os_path_exists (empty_fs :: real fs) ''a/b''"
    by (simp add: os_path_exists_def absolute_def dir_error_def node_at_def place_key_def
        empty_fs_def)
  have ma: "os_mkdir (empty_fs :: real fs) ''a/b'' = Inl FileNotFoundError"
    by (simp add: os_mkdir_def strip_trailing_def absolute_def dir_error_def node_at_def
        place_key_def empty_fs_def)
  have fa: "checkpoint toy_repr id (0 :: real) ''a/b'' 1 (1 / 2) empty_fs
              = (Some FileNotFoundError, empty_fs)"
    using checkpoint_directory
      [where fs = "empty_fs :: real fs" and pth_dir = "''a/b''" and float_repr = toy_repr
         and net = 0 and epoch = 1 and v = "1 / 2" and err = FileNotFoundError,
       THEN conjunct2, THEN conjunct2, THEN conjunct2, THEN conjunct2, THEN conjunct2]
      na ma by simp
  have j: "checkpoint toy_repr id (3 :: real) ?d 1 (1 / 2) ?fs2
       = (case torch_save ?fs2 3 ''checkpoints/neuralsea-epoch-1-loss-0.5.pth'' of
            Inl x \<Rightarrow> (Some x, ?fs2)
          | Inr fs' \<Rightarrow> (None, fs'))"
    using checkpoint_directory
      [where fs = ?fs2 and pth_dir = ?d and float_repr = toy_repr and net = 3
         and epoch = 1 and v = "1 / 2", THEN conjunct1] e3
    by (simp add: toy_path_half)
  have i': "fst (checkpoint toy_repr id (3 :: real) ?d 1 (1 / 2) ?fs2) = None"
    using i k by simp
  show ?thesis
    by (intro conjI a m e1 k e3 j i' e2 x na ma fa)
qed

text \<open>
  C7 as stated fails: the test and the creation are two statements, and a directory
  created between them by another process is an error.
\<close>

theorem checkpoint_race_counterexample:
  "\<not> os_path_exists (empty_fs :: real fs) ''checkpoints''
   \<and> creates_dir ''checkpoints'' (empty_fs :: real fs) ''checkpoints'' = Some Dir
   \<and> fst (checkpoint toy_repr (creates_dir ''checkpoints'') (0 :: real) ''checkpoints'' 1 (1 / 2)
            empty_fs) = Some FileExistsError"
proof -
  let ?b = "''checkpoints''"
  have e0: "(empty_fs :: real fs) ?b = None" by (simp add: empty_fs_def)
  have a: "\<not> os_path_exists (empty_fs :: real fs) ?b"
    using simple_exists(1)[of ?b "empty_fs :: real fs"] e0 by simp
  have c: "creates_dir ?b (empty_fs :: real fs) = (empty_fs :: real fs)(?b \<mapsto> Dir)"
    using simple_mkdir[of ?b "empty_fs :: real fs" ?b] e0 by (simp add: creates_dir_def)
  have e: "os_path_exists (creates_dir ?b (empty_fs :: real fs)) ?b"
    using simple_exists(1)[of ?b "creates_dir ?b (empty_fs :: real fs)"] by (simp add: c)
  have "fst (checkpoint toy_repr (creates_dir ?b) (0 :: real) ?b 1 (1 / 2) empty_fs)
          = Some FileExistsError"
    using a e by (rule checkpoint_race)
  with a c show ?thesis by simp
qed

section \<open>Properties of the script\<close>

text \<open>
  C8. If the accelerator is requested and not available, the script ends with an
  exception during startup: no net, no scheduler, no epoch, no checkpoint and no plot
  exists then, and the file system is as it was. Only the seeding and, when asked for,
  the visdom setup come before. With a seed numpy accepts and a visdom that connects, the
  exception is the one of \<^verbatim>\<open>setup_device\<close>.
\<close>

theorem no_gpu_stops_before_training:
  assumes "arg_cuda a" and "\<not> env_cuda_is_available ev"
  shows "fst (main c a ev fs) \<noteq> None
    \<and> w_net (snd (main c a ev fs)) = None
    \<and> w_scheduler (snd (main c a ev fs)) = None
    \<and> w_files (snd (main c a ev fs)) = fs
    \<and> w_plots (snd (main c a ev fs)) = []
    \<and> w_history (snd (main c a ev fs)) = []
    \<and> (0 \<le> arg_seed a \<and> arg_seed a < 2 ^ 32
         \<and> (arg_visdom a \<longrightarrow> env_visdom ev (arg_env a) = None)
        \<longrightarrow> fst (main c a ev fs) = Some (Exception ''No GPU found, please run without: --cuda''))"
  using assms
  by (auto simp: main_def seed_def setup_visdom_def setup_device_def initial_world_def
      split: option.splits)

theorem no_gpu_stops_before_training_witness:
  "arg_cuda toy_args_cuda \<and> \<not> env_cuda_is_available toy_env
   \<and> (0 \<le> arg_seed toy_args_cuda \<and> arg_seed toy_args_cuda < 2 ^ 32)
   \<and> \<not> arg_visdom toy_args_cuda
   \<and> fst (main toy toy_args_cuda toy_env empty_fs)
        = Some (Exception ''No GPU found, please run without: --cuda'')
   \<and> w_net (snd (main toy toy_args_cuda toy_env empty_fs)) = None
   \<and> w_history (snd (main toy toy_args_cuda toy_env empty_fs)) = []"
proof -
  have a: "arg_cuda toy_args_cuda" by (simp add: toy_args_cuda_def)
  have b: "\<not> env_cuda_is_available toy_env" by (simp add: toy_env_def)
  have s: "arg_seed toy_args_cuda = 42 \<and> \<not> arg_visdom toy_args_cuda"
    by (simp add: toy_args_cuda_def toy_args_def)
  show ?thesis
    using no_gpu_stops_before_training [OF a b, of toy empty_fs] a b s
    by simp
qed

subsection \<open>The learning rate over the epochs\<close>

lemma scheduler_step_rate:
  "0 \<le> current_rate s \<Longrightarrow>
   current_rate (scheduler_step cfg L s) \<le> current_rate s
   \<and> 0 \<le> current_rate (scheduler_step cfg L s)"
  by (simp add: scheduler_step_def reduction_factor_def)

lemma run_epochs_rates:
  "0 \<le> current_rate (l_sched s) \<Longrightarrow>
   sorted_wrt (\<lambda>x y. y \<le> x) (map e_rate (l_history s)) \<Longrightarrow>
   list_all (\<lambda>h. current_rate (l_sched s) \<le> e_rate h) (l_history s) \<Longrightarrow>
   sorted_wrt (\<lambda>x y. y \<le> x)
     (map e_rate (l_history (snd (run_epochs c a ev cfg trl val es s))))"
proof (induction es arbitrary: s)
  case Nil
  then show ?case by simp
next
  case (Cons epoch rest)
  obtain r st where t: "train c epoch (current_rate (l_sched s)) (l_net s) (trl epoch) = (r, st)"
    by (cases "train c epoch (current_rate (l_sched s)) (l_net s) (trl epoch)") auto
  show ?case
  proof (cases r)
    case (Inl e)
    with t Cons.prems show ?thesis by simp
  next
    case (Inr train_loss)
    show ?thesis
    proof (cases "validate c st (val epoch)")
      case (Inl e)
      with t Inr Cons.prems show ?thesis by simp
    next
      case vr: (Inr res)
      obtain valid_loss valid_acc where res: "res = (valid_loss, valid_acc)" by (cases res) auto
      let ?sched = "scheduler_step cfg valid_loss (l_sched s)"
      obtain ce fs where ck: "checkpoint (env_float_repr ev) id st (arg_pth_dir a) epoch
                                valid_loss (l_files s) = (ce, fs)"
        by (cases "checkpoint (env_float_repr ev) id st (arg_pth_dir a) epoch valid_loss
                     (l_files s)") auto
      show ?thesis
      proof (cases ce)
        case (Some e)
        with t Inr vr res ck Cons.prems show ?thesis by simp
      next
        case None
        let ?h = "\<lparr>e_epoch = epoch, e_rate = current_rate (l_sched s),
                    e_train_loss = train_loss, e_valid_loss = valid_loss,
                    e_valid_acc = valid_acc,
                    e_path = checkpoint_path (env_float_repr ev) (arg_pth_dir a) epoch valid_loss,
                    e_net = st\<rparr>"
        let ?s = "s\<lparr>l_net := st, l_sched := ?sched, l_files := fs,
                    l_plots := (if arg_visdom a
                                then l_plots s @ [(epoch, train_loss, valid_loss, valid_acc)]
                                else l_plots s),
                    l_history := l_history s @ [?h]\<rparr>"
        have step: "run_epochs c a ev cfg trl val (epoch # rest) s = run_epochs c a ev cfg trl val rest ?s"
          using t Inr vr res ck None by simp
        have r1: "current_rate ?sched \<le> current_rate (l_sched s) \<and> 0 \<le> current_rate ?sched"
          using scheduler_step_rate[OF Cons.prems(1)] by simp
        have p1: "0 \<le> current_rate (l_sched ?s)" using r1 by simp
        have p2: "sorted_wrt (\<lambda>x y. y \<le> x) (map e_rate (l_history ?s))"
          using Cons.prems(2,3) by (simp add: sorted_wrt_append list_all_iff)
        have p3: "list_all (\<lambda>h. current_rate (l_sched ?s) \<le> e_rate h) (l_history ?s)"
          using Cons.prems(3) r1 by (auto simp: list_all_iff)
        show ?thesis
          using Cons.IH[OF p1 p2 p3] by (simp only: step)
      qed
    qed
  qed
qed

lemma start_training_rates:
  assumes "w_history w = []"
  shows "sorted_wrt (\<lambda>x y. y \<le> x) (map e_rate (w_history (snd (start_training c a ev dev w))))"
proof (cases "get_dataset_loader ev (arg_X_train a) (arg_y_train a) (arg_batch_size a)
               (arg_threads a)")
  case (Inl e)
  then show ?thesis using assms by (simp add: start_training_def)
next
  case trl: (Inr trl)
  show ?thesis
  proof (cases "get_dataset_loader ev (arg_X_valid a) (arg_y_valid a) (arg_valid_batch_size a)
                 (arg_threads a)")
    case (Inl e)
    then show ?thesis using assms trl by (simp add: start_training_def)
  next
    case val: (Inr val)
    show ?thesis
    proof (cases "build_net ev (arg_warm_start a) dev")
      case (Inl e)
      then show ?thesis using assms trl val by (simp add: start_training_def)
    next
      case st: (Inr st)
      show ?thesis
      proof (cases "arg_lr a < 0 \<or> arg_l2 a < 0")
        case True
        then show ?thesis using assms trl val st
          by (simp add: start_training_def get_optimizer_def)
      next
        case False
        let ?cfg = "fst (get_lr_scheduler (env_threshold ev) (env_mode ev) (arg_lr a)
                      (arg_patience a))"
        let ?s0 = "\<lparr>l_net = st,
                     l_sched = snd (get_lr_scheduler (env_threshold ev) (env_mode ev) (arg_lr a)
                                 (arg_patience a)),
                     l_files = w_files w, l_plots = w_plots w, l_history = w_history w\<rparr>"
        have r: "0 \<le> current_rate (l_sched ?s0)"
          using False by (simp add: get_lr_scheduler_def)
        have h: "sorted_wrt (\<lambda>x y. y \<le> x) (map e_rate (l_history ?s0))"
          using assms by simp
        have b: "list_all (\<lambda>h. current_rate (l_sched ?s0) \<le> e_rate h) (l_history ?s0)"
          using assms by simp
        have run: "sorted_wrt (\<lambda>x y. y \<le> x)
            (map e_rate (l_history (snd (run_epochs c a ev ?cfg trl val
               (epoch_range (arg_epochs a)) ?s0))))"
          by (rule run_epochs_rates[OF r h b])
        have "w_history (snd (start_training c a ev dev w))
                = l_history (snd (run_epochs c a ev ?cfg trl val
                     (epoch_range (arg_epochs a)) ?s0))"
          using trl val st False
          by (simp add: start_training_def get_optimizer_def Let_def split_beta)
        with run show ?thesis by simp
      qed
    qed
  qed
qed

lemma main_rates:
  "sorted_wrt (\<lambda>x y. y \<le> x) (map e_rate (w_history (snd (main c a ev fs))))"
proof -
  have st: "sorted_wrt (\<lambda>x y. y \<le> x)
              (map e_rate (w_history (snd (start_training c a ev dev w))))"
    if "w_history w = []" for dev w
    using that by (rule start_training_rates)
  show ?thesis
    by (auto simp: main_def seed_def setup_visdom_def setup_device_def initial_world_def st
        split: option.splits)
qed


subsection \<open>The names of the checkpoints\<close>

lemma digit_char_inj: "d < 10 \<Longrightarrow> d' < 10 \<Longrightarrow> digit_char d = digit_char d' \<Longrightarrow> d = d'"
  using digit_cases[of d] digit_cases[of d'] by (auto simp: digit_char_def)

lemma str_nat_nonempty: "str_nat n \<noteq> []"
  by (subst str_nat.simps) simp

lemma str_nat_inj: "str_nat n = str_nat m \<Longrightarrow> n = m"
proof (induction n arbitrary: m rule: str_nat.induct)
  case (1 n)
  have n: "str_nat n = (if n < 10 then [digit_char n]
                        else str_nat (n div 10) @ [digit_char (n mod 10)])"
    by (subst str_nat.simps) simp
  have m: "str_nat m = (if m < 10 then [digit_char m]
                        else str_nat (m div 10) @ [digit_char (m mod 10)])"
    by (subst str_nat.simps) simp
  show ?case
  proof (cases "n < 10")
    case True
    show ?thesis
    proof (cases "m < 10")
      case m10: True
      with True n m "1.prems" show ?thesis by (auto dest: digit_char_inj)
    next
      case False
      with True n m "1.prems" str_nat_nonempty[of "m div 10"] show ?thesis
        by (cases "str_nat (m div 10)") auto
    qed
  next
    case False
    show ?thesis
    proof (cases "m < 10")
      case True
      with False n m "1.prems" str_nat_nonempty[of "n div 10"] show ?thesis
        by (cases "str_nat (n div 10)") auto
    next
      case m10: False
      from False m10 n m "1.prems" have
        a: "str_nat (n div 10) = str_nat (m div 10)" and
        b: "digit_char (n mod 10) = digit_char (m mod 10)" by auto
      have d: "n div 10 = m div 10" using "1.IH"[OF False a] .
      have r: "n mod 10 = m mod 10" using digit_char_inj[OF _ _ b] by simp
      show ?thesis using d r by (metis div_mult_mod_eq)
    qed
  qed
qed

lemma takeWhile_sep: "a \<notin> set xs \<Longrightarrow> takeWhile (\<lambda>c. c \<noteq> a) (xs @ a # r) = xs"
  by (induction xs) auto

lemma append_sep_eq:
  "xs @ a # r = ys @ a # r' \<Longrightarrow> a \<notin> set xs \<Longrightarrow> a \<notin> set ys \<Longrightarrow> xs = ys"
proof -
  assume e: "xs @ a # r = ys @ a # r'" and x: "a \<notin> set xs" and y: "a \<notin> set ys"
  have "takeWhile (\<lambda>c. c \<noteq> a) (xs @ a # r) = xs"
    using x by (rule takeWhile_sep)
  moreover have "takeWhile (\<lambda>c. c \<noteq> a) (ys @ a # r') = ys"
    using y by (rule takeWhile_sep)
  ultimately show ?thesis using e by simp
qed

lemma checkpoint_name_inj:
  "checkpoint_name float_repr e v = checkpoint_name float_repr e' v' \<Longrightarrow> e = e'"
proof -
  assume "checkpoint_name float_repr e v = checkpoint_name float_repr e' v'"
  then have eq: "str_nat e @ CHR ''-'' # (''loss-'' @ float_repr v @ ''.pth'')
               = str_nat e' @ CHR ''-'' # (''loss-'' @ float_repr v' @ ''.pth'')"
    by (simp add: checkpoint_name_def)
  have a: "CHR ''-'' \<notin> set (str_nat e)" using str_nat_digits[of e] by auto
  have b: "CHR ''-'' \<notin> set (str_nat e')" using str_nat_digits[of e'] by auto
  show ?thesis using append_sep_eq[OF eq a b] by (rule str_nat_inj)
qed

lemma checkpoint_path_inj:
  "checkpoint_path float_repr d e v = checkpoint_path float_repr d e' v' \<Longrightarrow> e = e'"
proof -
  assume p: "checkpoint_path float_repr d e v = checkpoint_path float_repr d e' v'"
  have n: "\<And>e v. checkpoint_name float_repr e v \<noteq> []
               \<and> hd (checkpoint_name float_repr e v) \<noteq> CHR ''/''"
    by (simp add: checkpoint_name_def)
  have "checkpoint_name float_repr e v = checkpoint_name float_repr e' v'"
    using p n[of e v] n[of e' v']
    by (auto simp: checkpoint_path_def os_path_join_def split: if_splits)
  then show ?thesis by (rule checkpoint_name_inj)
qed

lemma py_round_idem: "py_round (py_round x n) n = py_round x n"
proof -
  have r: "round_half_even (of_int k) = k" for k
    by (simp add: round_half_even_def Let_def)
  show ?thesis by (simp add: py_round_def r)
qed

lemma validate_rounded: "validate c st loader = Inr (l, acc) \<Longrightarrow> py_round l 4 = l"
  by (auto simp: validate_def py_round_idem split: sum.splits prod.splits)

subsection \<open>The epoch loop\<close>

lemma run_epochs_checkpoints:
  "run_epochs c a ev cfg trl val es s = (None, s') \<Longrightarrow> distinct es \<Longrightarrow>
   \<exists>H. l_history s' = l_history s @ H \<and> map e_epoch H = es
     \<and> (\<forall>h \<in> set H.
            e_path h = checkpoint_path (env_float_repr ev) (arg_pth_dir a) (e_epoch h)
                         (e_valid_loss h)
          \<and> py_round (e_valid_loss h) 4 = e_valid_loss h
          \<and> l_files s' (e_path h) = Some (File (e_net h)))
     \<and> (\<forall>q. l_files s q \<noteq> None \<longrightarrow> q \<notin> e_path ` set H \<longrightarrow> l_files s' q = l_files s q)"
proof (induction es arbitrary: s)
  case Nil
  then show ?case by simp
next
  case (Cons epoch rest)
  obtain r st where t: "train c epoch (current_rate (l_sched s)) (l_net s) (trl epoch) = (r, st)"
    by (cases "train c epoch (current_rate (l_sched s)) (l_net s) (trl epoch)") auto
  from Cons.prems(1) t obtain train_loss where tr: "r = Inr train_loss"
    by (cases r) auto
  from Cons.prems(1) t tr obtain valid_loss valid_acc where
    v: "validate c st (val epoch) = Inr (valid_loss, valid_acc)"
    by (cases "validate c st (val epoch)") auto
  let ?p = "checkpoint_path (env_float_repr ev) (arg_pth_dir a) epoch valid_loss"
  obtain ce fs where ck: "checkpoint (env_float_repr ev) id st (arg_pth_dir a) epoch
                                valid_loss (l_files s) = (ce, fs)"
    by (cases "checkpoint (env_float_repr ev) id st (arg_pth_dir a) epoch valid_loss
                     (l_files s)") auto
  from Cons.prems(1) t tr v ck have ce: "ce = None" by (cases ce) auto
  let ?h = "\<lparr>e_epoch = epoch, e_rate = current_rate (l_sched s),
              e_train_loss = train_loss, e_valid_loss = valid_loss,
              e_valid_acc = valid_acc, e_path = ?p, e_net = st\<rparr>"
  let ?s = "s\<lparr>l_net := st, l_sched := scheduler_step cfg valid_loss (l_sched s), l_files := fs,
              l_plots := (if arg_visdom a
                          then l_plots s @ [(epoch, train_loss, valid_loss, valid_acc)]
                          else l_plots s),
              l_history := l_history s @ [?h]\<rparr>"
  have step: "run_epochs c a ev cfg trl val rest ?s = (None, s')"
    using Cons.prems(1) t tr v ck ce by simp
  from Cons.prems(2) have d: "distinct rest" and ne: "epoch \<notin> set rest" by simp_all
  from Cons.IH[OF step d] obtain H where
    hist: "l_history s' = l_history ?s @ H" and
    eps: "map e_epoch H = rest" and
    each: "\<forall>h \<in> set H.
            e_path h = checkpoint_path (env_float_repr ev) (arg_pth_dir a) (e_epoch h)
                         (e_valid_loss h)
          \<and> py_round (e_valid_loss h) 4 = e_valid_loss h
          \<and> l_files s' (e_path h) = Some (File (e_net h))" and
    frame: "\<forall>q. l_files ?s q \<noteq> None \<longrightarrow> q \<notin> e_path ` set H \<longrightarrow> l_files s' q = l_files ?s q"
    by blast
  have ckf: "fs ?p = Some (File st)
         \<and> (\<forall>q. q \<noteq> ?p \<longrightarrow> l_files s q \<noteq> None \<longrightarrow> fs q = l_files s q)"
    using checkpoint_frame[of "env_float_repr ev" st "arg_pth_dir a" epoch valid_loss
        "l_files s" fs] ck ce by simp
  have fresh: "?p \<notin> e_path ` set H"
  proof
    assume "?p \<in> e_path ` set H"
    then obtain h where h: "h \<in> set H" and p: "e_path h = ?p" by auto
    from each h p have "checkpoint_path (env_float_repr ev) (arg_pth_dir a) (e_epoch h)
                         (e_valid_loss h) = ?p" by simp
    then have "e_epoch h = epoch" by (rule checkpoint_path_inj)
    moreover have "e_epoch h \<in> set rest" using h eps by auto
    ultimately show False using ne by simp
  qed
  have kept: "l_files s' ?p = Some (File st)"
    using frame fresh ckf by simp
  have 1: "l_history s' = l_history s @ (?h # H)" using hist by simp
  have 2: "map e_epoch (?h # H) = epoch # rest" using eps by simp
  have 3: "\<forall>h \<in> set (?h # H).
            e_path h = checkpoint_path (env_float_repr ev) (arg_pth_dir a) (e_epoch h)
                         (e_valid_loss h)
          \<and> py_round (e_valid_loss h) 4 = e_valid_loss h
          \<and> l_files s' (e_path h) = Some (File (e_net h))"
    using each kept validate_rounded[OF v] by auto
  have 4: "\<forall>q. l_files s q \<noteq> None \<longrightarrow> q \<notin> e_path ` set (?h # H) \<longrightarrow> l_files s' q = l_files s q"
  proof (intro allI impI)
    fix q assume q: "l_files s q \<noteq> None" and n: "q \<notin> e_path ` set (?h # H)"
    from n have qp: "q \<noteq> ?p" and qh: "q \<notin> e_path ` set H" by auto
    from ckf qp q have "fs q = l_files s q" by simp
    with frame qh q show "l_files s' q = l_files s q" by simp
  qed
  show ?case by (rule exI[of _ "?h # H"]) (intro conjI 1 2 3 4)
qed

lemma paths_distinct:
  assumes "distinct (map e_epoch H)"
    and "\<forall>h \<in> set H. e_path h = checkpoint_path float_repr d (e_epoch h) (e_valid_loss h)"
  shows "distinct (map e_path H)"
proof -
  have "inj_on e_path (set H)"
  proof (rule inj_onI)
    fix x y assume x: "x \<in> set H" and y: "y \<in> set H" and e: "e_path x = e_path y"
    from assms(2) x y e have "checkpoint_path float_repr d (e_epoch x) (e_valid_loss x)
        = checkpoint_path float_repr d (e_epoch y) (e_valid_loss y)" by simp
    then have "e_epoch x = e_epoch y" by (rule checkpoint_path_inj)
    moreover have "inj_on e_epoch (set H)" using assms(1) by (simp add: distinct_map)
    ultimately show "x = y" using x y by (auto dest: inj_onD)
  qed
  moreover have "distinct H" using assms(1) by (simp add: distinct_map)
  ultimately show ?thesis by (simp add: distinct_map)
qed

lemma run_epochs_prefix:
  "\<exists>H. l_history (snd (run_epochs c a ev cfg trl val es s)) = l_history s @ H
       \<and> map e_epoch H = take (length H) es"
proof (induction es arbitrary: s)
  case Nil
  show ?case by simp
next
  case (Cons epoch rest)
  obtain r st where t: "train c epoch (current_rate (l_sched s)) (l_net s) (trl epoch) = (r, st)"
    by (cases "train c epoch (current_rate (l_sched s)) (l_net s) (trl epoch)") auto
  show ?case
  proof (cases r)
    case (Inl e)
    with t show ?thesis by simp
  next
    case (Inr train_loss)
    show ?thesis
    proof (cases "validate c st (val epoch)")
      case (Inl e)
      with t Inr show ?thesis by simp
    next
      case vr: (Inr res)
      obtain valid_loss valid_acc where res: "res = (valid_loss, valid_acc)" by (cases res) auto
      obtain ce fs where ck: "checkpoint (env_float_repr ev) id st (arg_pth_dir a) epoch
                                valid_loss (l_files s) = (ce, fs)"
        by (cases "checkpoint (env_float_repr ev) id st (arg_pth_dir a) epoch valid_loss
                     (l_files s)") auto
      show ?thesis
      proof (cases ce)
        case (Some e)
        with t Inr vr res ck show ?thesis by simp
      next
        case None
        let ?h = "\<lparr>e_epoch = epoch, e_rate = current_rate (l_sched s),
                    e_train_loss = train_loss, e_valid_loss = valid_loss,
                    e_valid_acc = valid_acc,
                    e_path = checkpoint_path (env_float_repr ev) (arg_pth_dir a) epoch valid_loss,
                    e_net = st\<rparr>"
        let ?s = "s\<lparr>l_net := st, l_sched := scheduler_step cfg valid_loss (l_sched s),
                    l_files := fs,
                    l_plots := (if arg_visdom a
                                then l_plots s @ [(epoch, train_loss, valid_loss, valid_acc)]
                                else l_plots s),
                    l_history := l_history s @ [?h]\<rparr>"
        have step: "run_epochs c a ev cfg trl val (epoch # rest) s
                      = run_epochs c a ev cfg trl val rest ?s"
          using t Inr vr res ck None by simp
        from Cons.IH[of ?s] obtain H where
          h: "l_history (snd (run_epochs c a ev cfg trl val rest ?s)) = l_history ?s @ H" and
          e: "map e_epoch H = take (length H) rest" by blast
        have 1: "l_history (snd (run_epochs c a ev cfg trl val (epoch # rest) s))
                   = l_history s @ (?h # H)"
          using h by (simp only: step) simp
        have 2: "map e_epoch (?h # H) = take (length (?h # H)) (epoch # rest)"
          using e by simp
        show ?thesis by (rule exI[of _ "?h # H"]) (intro conjI 1 2)
      qed
    qed
  qed
qed

text \<open>What a run of the script is: it stops during setup, or it runs the epoch loop.\<close>

lemma start_training_run:
  assumes "w_history w = []"
  shows "(fst (start_training c a ev dev w) \<noteq> None
          \<and> w_history (snd (start_training c a ev dev w)) = []
          \<and> w_files (snd (start_training c a ev dev w)) = w_files w)
       \<or> (\<exists>cfg trl val s.
            l_history s = [] \<and> l_files s = w_files w \<and> 0 \<le> current_rate (l_sched s)
          \<and> fst (start_training c a ev dev w)
              = fst (run_epochs c a ev cfg trl val (epoch_range (arg_epochs a)) s)
          \<and> w_history (snd (start_training c a ev dev w))
              = l_history (snd (run_epochs c a ev cfg trl val (epoch_range (arg_epochs a)) s))
          \<and> w_files (snd (start_training c a ev dev w))
              = l_files (snd (run_epochs c a ev cfg trl val (epoch_range (arg_epochs a)) s)))"
proof (cases "get_dataset_loader ev (arg_X_train a) (arg_y_train a) (arg_batch_size a)
               (arg_threads a)")
  case (Inl e)
  then show ?thesis using assms by (simp add: start_training_def)
next
  case trl: (Inr trl)
  show ?thesis
  proof (cases "get_dataset_loader ev (arg_X_valid a) (arg_y_valid a) (arg_valid_batch_size a)
                 (arg_threads a)")
    case (Inl e)
    then show ?thesis using assms trl by (simp add: start_training_def)
  next
    case val: (Inr val)
    show ?thesis
    proof (cases "build_net ev (arg_warm_start a) dev")
      case (Inl e)
      then show ?thesis using assms trl val by (simp add: start_training_def)
    next
      case st: (Inr st)
      show ?thesis
      proof (cases "arg_lr a < 0 \<or> arg_l2 a < 0")
        case True
        then show ?thesis using assms trl val st
          by (simp add: start_training_def get_optimizer_def)
      next
        case False
        let ?cfg = "fst (get_lr_scheduler (env_threshold ev) (env_mode ev) (arg_lr a)
                      (arg_patience a))"
        let ?s0 = "\<lparr>l_net = st,
                     l_sched = snd (get_lr_scheduler (env_threshold ev) (env_mode ev) (arg_lr a)
                                 (arg_patience a)),
                     l_files = w_files w, l_plots = w_plots w, l_history = w_history w\<rparr>"
        let ?run = "run_epochs c a ev ?cfg trl val (epoch_range (arg_epochs a)) ?s0"
        have r: "0 \<le> current_rate (l_sched ?s0)"
          using False by (simp add: get_lr_scheduler_def)
        have eq: "start_training c a ev dev w
                = (fst ?run, w\<lparr>w_net := Some (l_net (snd ?run)),
                                 w_scheduler := Some (l_sched (snd ?run)),
                                 w_files := l_files (snd ?run), w_plots := l_plots (snd ?run),
                                 w_history := l_history (snd ?run)\<rparr>)"
          using trl val st False
          by (simp add: start_training_def get_optimizer_def Let_def split_beta)
        have "l_history ?s0 = [] \<and> l_files ?s0 = w_files w \<and> 0 \<le> current_rate (l_sched ?s0)
          \<and> fst (start_training c a ev dev w) = fst ?run
          \<and> w_history (snd (start_training c a ev dev w)) = l_history (snd ?run)
          \<and> w_files (snd (start_training c a ev dev w)) = l_files (snd ?run)"
          using assms r by (simp add: eq)
        then show ?thesis by blast
      qed
    qed
  qed
qed

lemma main_run:
  "(fst (main c a ev fs) \<noteq> None
          \<and> w_history (snd (main c a ev fs)) = []
          \<and> w_files (snd (main c a ev fs)) = fs)
       \<or> (\<exists>cfg trl val s.
            l_history s = [] \<and> l_files s = fs \<and> 0 \<le> current_rate (l_sched s)
          \<and> fst (main c a ev fs)
              = fst (run_epochs c a ev cfg trl val (epoch_range (arg_epochs a)) s)
          \<and> w_history (snd (main c a ev fs))
              = l_history (snd (run_epochs c a ev cfg trl val (epoch_range (arg_epochs a)) s))
          \<and> w_files (snd (main c a ev fs))
              = l_files (snd (run_epochs c a ev cfg trl val (epoch_range (arg_epochs a)) s)))"
proof -
  have st: "(fst (start_training c a ev dev w) \<noteq> None
          \<and> w_history (snd (start_training c a ev dev w)) = []
          \<and> w_files (snd (start_training c a ev dev w)) = fs)
       \<or> (\<exists>cfg trl val s.
            l_history s = [] \<and> l_files s = fs \<and> 0 \<le> current_rate (l_sched s)
          \<and> fst (start_training c a ev dev w)
              = fst (run_epochs c a ev cfg trl val (epoch_range (arg_epochs a)) s)
          \<and> w_history (snd (start_training c a ev dev w))
              = l_history (snd (run_epochs c a ev cfg trl val (epoch_range (arg_epochs a)) s))
          \<and> w_files (snd (start_training c a ev dev w))
              = l_files (snd (run_epochs c a ev cfg trl val (epoch_range (arg_epochs a)) s)))"
    if "w_history w = []" "w_files w = fs" for dev w
    using start_training_run[OF that(1), of c a ev dev] that(2) by simp
  let ?w1 = "(initial_world fs)\<lparr>w_rng_seed := Some (arg_seed a)\<rparr>"
  let ?w2 = "?w1\<lparr>w_vis_env := Some (arg_env a)\<rparr>"
  have w1: "w_history ?w1 = []" "w_files ?w1 = fs" by (simp_all add: initial_world_def)
  have w2: "w_history ?w2 = []" "w_files ?w2 = fs" by (simp_all add: initial_world_def)
  show ?thesis
  proof (cases "arg_seed a < 0 \<or> 2 ^ 32 \<le> arg_seed a")
    case True
    then show ?thesis by (simp add: main_def seed_def initial_world_def)
  next
    case seed_ok: False
    show ?thesis
    proof (cases "setup_device (arg_cuda a) (env_cuda_is_available ev)")
      case (Inl e)
      with seed_ok show ?thesis
        by (simp add: main_def seed_def setup_visdom_def initial_world_def split: option.splits)
    next
      case (Inr dev)
      show ?thesis
      proof (cases "arg_visdom a")
        case False
        have "main c a ev fs = start_training c a ev dev ?w1"
          using seed_ok Inr False by (simp add: main_def seed_def)
        then show ?thesis using st[OF w1, of dev] by simp
      next
        case True
        show ?thesis
        proof (cases "env_visdom ev (arg_env a)")
          case (Some e)
          with seed_ok Inr True show ?thesis
            by (simp add: main_def seed_def setup_visdom_def initial_world_def)
        next
          case None
          have "main c a ev fs = start_training c a ev dev ?w2"
            using seed_ok Inr True None by (simp add: main_def seed_def setup_visdom_def)
          then show ?thesis using st[OF w2, of dev] by simp
        qed
      qed
    qed
  qed
qed

subsection \<open>The run of the small instance\<close>

text \<open>
  The comparison of the validate step, in a form that runs: the rounded sigmoid of a
  logit is 1 for a positive logit and 0 otherwise.
\<close>

lemma eq_prediction_code [code]:
  "eq_prediction target out =
     map2 (\<lambda>t_row o_row. map2 (\<lambda>t v. t = (if 0 < v then 1 else 0)) t_row o_row) target out"
  by (simp add: eq_prediction_def torch_round_sigmoid)

lemmas toy_defs = toy_def toy_forward_def squared_error_def descent_step_def batch_a_def
  batch_b_def batch_v_def input_of_def target_of_def

lemma toy_train_a: "train toy e (1 / 2) 0 [batch_a, batch_b] = (Inr (5 / 2), 3)"
  by (simp add: train_def py_div_def toy_defs py_round_def round_half_even_def Let_def)

lemma toy_train_b: "train toy e (1 / 2) 3 [batch_a, batch_b] = (Inr 4, 3)"
  by (simp add: train_def py_div_def toy_defs py_round_def round_half_even_def Let_def)

lemma toy_train_c: "train toy e (1 / 20) 3 [batch_a, batch_b] = (Inr (101 / 50), 141 / 50)"
  by (simp add: train_def py_div_def toy_defs py_round_def round_half_even_def Let_def
      power2_eq_square)

lemma toy_validate_a: "validate toy 3 [batch_v] = Inr (41, Fin (1 / 2))"
  by (simp add: validate_def py_div_def toy_defs batch_accuracy_def torch_div_def
      prod_last_dim_def eq_prediction_def torch_round_sigmoid py_round_def
      round_half_even_def Let_def)

lemma toy_validate_b: "validate toy (141 / 50) [batch_v] = Inr (18061 / 500, Fin (1 / 2))"
  by (simp add: validate_def py_div_def toy_defs batch_accuracy_def torch_div_def
      prod_last_dim_def eq_prediction_def torch_round_sigmoid py_round_def
      round_half_even_def Let_def power2_eq_square)

lemma toy_epoch_range: "epoch_range 3 = [Suc 0, 2, 3]"
  by (simp add: epoch_range_def upt_rec)

lemmas path_defs = checkpoint_path_def checkpoint_name_def os_path_join_def toy_repr_def
  digit_char_def str_nat.simps

lemma toy_path_a:
  "checkpoint_path toy_repr ''checkpoints'' (Suc 0) 41 = ''checkpoints/neuralsea-epoch-1-loss-41.0.pth''"
  by (simp add: path_defs)

lemma toy_path_b:
  "checkpoint_path toy_repr ''checkpoints'' 2 41 = ''checkpoints/neuralsea-epoch-2-loss-41.0.pth''"
  by (simp add: path_defs)

lemma toy_path_c:
  "checkpoint_path toy_repr ''checkpoints'' 3 (18061 / 500)
     = ''checkpoints/neuralsea-epoch-3-loss-36.1.pth''"
  by (simp add: path_defs)

lemma toy_split_a:
  "split_sep ''checkpoints/neuralsea-epoch-1-loss-41.0.pth''
     = [''checkpoints'', ''neuralsea-epoch-1-loss-41.0.pth'']"
  by simp

lemma toy_split_b:
  "split_sep ''checkpoints/neuralsea-epoch-2-loss-41.0.pth''
     = [''checkpoints'', ''neuralsea-epoch-2-loss-41.0.pth'']"
  by simp

lemma toy_split_c:
  "split_sep ''checkpoints/neuralsea-epoch-3-loss-36.1.pth''
     = [''checkpoints'', ''neuralsea-epoch-3-loss-36.1.pth'']"
  by simp

lemma toy_split_dir: "split_sep ''checkpoints'' = [''checkpoints'']"
  by simp

lemmas toy_steps = toy_train_a toy_train_b toy_train_c toy_validate_a toy_validate_b
  toy_epoch_range toy_path_a toy_path_b toy_path_c toy_split_dir toy_split_a
  toy_split_b toy_split_c

lemma toy_main:
  "main toy toy_args toy_env empty_fs =
     (None,
      \<lparr>w_rng_seed = Some 42, w_vis_env = None, w_net = Some (141 / 50),
       w_scheduler = Some \<lparr>current_rate = 1 / 20, best_loss = Some (18061 / 500),
                           wait_counter = 0\<rparr>,
       w_files = empty_fs(''checkpoints'' \<mapsto> Dir,
                   ''checkpoints/neuralsea-epoch-1-loss-41.0.pth'' \<mapsto> File 3,
                   ''checkpoints/neuralsea-epoch-2-loss-41.0.pth'' \<mapsto> File 3,
                   ''checkpoints/neuralsea-epoch-3-loss-36.1.pth'' \<mapsto> File (141 / 50)),
       w_plots = [],
       w_history =
         [\<lparr>e_epoch = 1, e_rate = 1 / 2, e_train_loss = 5 / 2, e_valid_loss = 41,
           e_valid_acc = Fin (1 / 2),
           e_path = ''checkpoints/neuralsea-epoch-1-loss-41.0.pth'', e_net = 3\<rparr>,
          \<lparr>e_epoch = 2, e_rate = 1 / 2, e_train_loss = 4, e_valid_loss = 41,
           e_valid_acc = Fin (1 / 2),
           e_path = ''checkpoints/neuralsea-epoch-2-loss-41.0.pth'', e_net = 3\<rparr>,
          \<lparr>e_epoch = 3, e_rate = 1 / 20, e_train_loss = 101 / 50, e_valid_loss = 18061 / 500,
           e_valid_acc = Fin (1 / 2),
           e_path = ''checkpoints/neuralsea-epoch-3-loss-36.1.pth'', e_net = 141 / 50\<rparr>]\<rparr>)"
  by (simp add: main_def seed_def setup_device_def initial_world_def start_training_def
      get_dataset_loader_def build_net_def get_optimizer_def get_lr_scheduler_def
      toy_args_def toy_env_def toy_load_set_def toy_steps
      scheduler_step_def reduction_factor_def
      checkpoint_def os_path_exists_def os_mkdir_def torch_save_def absolute_def
      strip_trailing_def dir_error_def node_at_def place_key_def empty_fs_def Let_def)

lemma toy_fields:
  "env_float_repr toy_env = toy_repr" "arg_pth_dir toy_args = ''checkpoints''"
  "arg_epochs toy_args = 3"
  by (simp_all add: toy_env_def toy_args_def)

subsection \<open>The learning rate and the checkpoints of a run\<close>

lemma main_epochs:
  assumes "j < length (w_history (snd (main c a ev fs)))"
  shows "e_epoch (w_history (snd (main c a ev fs)) ! j) = j + 1"
proof -
  let ?H = "w_history (snd (main c a ev fs))"
  from main_run[of c a ev fs] assms obtain cfg trl val s where
    s: "l_history s = []" and
    h: "?H = l_history (snd (run_epochs c a ev cfg trl val (epoch_range (arg_epochs a)) s))"
    by auto
  from run_epochs_prefix[of c a ev cfg trl val "epoch_range (arg_epochs a)" s] s h
  have p: "map e_epoch ?H = take (length ?H) (epoch_range (arg_epochs a))" by auto
  have "length (map e_epoch ?H) = length (take (length ?H) (epoch_range (arg_epochs a)))"
    by (simp only: p)
  then have le: "length ?H \<le> length (epoch_range (arg_epochs a))" by simp
  have "e_epoch (?H ! j) = map e_epoch ?H ! j" using assms by simp
  also have "\<dots> = epoch_range (arg_epochs a) ! j" using assms by (simp only: p) simp
  also have "\<dots> = j + 1" using assms le by (simp add: epoch_range_def)
  finally show ?thesis .
qed

text \<open>
  C5. In every run of the script, for epochs \<open>i < j\<close> that completed (entries \<open>i\<close> and
  \<open>j\<close> of the history are epochs \<open>i + 1\<close> and \<open>j + 1\<close>), the rate the train step of
  the later epoch ran at is at most the rate of the earlier one; and one step of the
  scheduler never increases a rate that is not negative (the optimizer refuses a negative
  one at startup).
\<close>

theorem learning_rate_never_increases:
  "(i < j \<and> j < length (w_history (snd (main c a ev fs))) \<longrightarrow>
      e_rate (w_history (snd (main c a ev fs)) ! j)
        \<le> e_rate (w_history (snd (main c a ev fs)) ! i)
      \<and> e_epoch (w_history (snd (main c a ev fs)) ! i) = i + 1
      \<and> e_epoch (w_history (snd (main c a ev fs)) ! j) = j + 1)
   \<and> (0 \<le> current_rate s \<longrightarrow>
        current_rate (scheduler_step cfg L s) \<le> current_rate s)"
proof -
  let ?H = "w_history (snd (main c a ev fs))"
  have r: "e_rate (?H ! j) \<le> e_rate (?H ! i)" if "i < j" "j < length ?H"
  proof -
    have "map e_rate ?H ! j \<le> map e_rate ?H ! i"
      using main_rates[of c a ev fs] that by (simp add: sorted_wrt_iff_nth_less)
    then show ?thesis using that by simp
  qed
  have e: "e_epoch (?H ! i) = i + 1 \<and> e_epoch (?H ! j) = j + 1" if "i < j" "j < length ?H"
    using main_epochs[of i c a ev fs] main_epochs[of j c a ev fs] that by simp
  show ?thesis using r e scheduler_step_rate[of s cfg L] by blast
qed

theorem learning_rate_never_increases_witness:
  "(0 :: nat) < 2 \<and> 2 < length (w_history (snd (main toy toy_args toy_env empty_fs)))
   \<and> e_rate (w_history (snd (main toy toy_args toy_env empty_fs)) ! 0) = 1 / 2
   \<and> e_rate (w_history (snd (main toy toy_args toy_env empty_fs)) ! 2) = 1 / 20
   \<and> e_epoch (w_history (snd (main toy toy_args toy_env empty_fs)) ! 2) = 3
   \<and> (0 :: real) \<le> current_rate default_start
   \<and> current_rate (scheduler_step default_config 1 default_start) \<le> current_rate default_start"
proof -
  have d: "(0 :: real) \<le> current_rate default_start"
    by (simp add: default_start_def get_lr_scheduler_def)
  show ?thesis
    using learning_rate_never_increases
      [of 0 2 toy toy_args toy_env empty_fs default_start default_config 1] d
    by (simp add: toy_main)
qed

text \<open>
  C6. In every run of the script that completes its \<open>N\<close> epochs, the checkpoint step ran
  once in each epoch 1, ..., \<open>N\<close>, whatever the losses; the \<open>N\<close> paths written are
  distinct; each is named after its epoch and its validation loss, which is rounded to 4
  decimals; and at the end of the run every one of them still holds the net saved in its
  epoch. What stood on the file system before the run under another path is unchanged.
\<close>

theorem checkpoint_every_epoch:
  assumes "fst (main c a ev fs) = None"
  shows "map e_epoch (w_history (snd (main c a ev fs))) = epoch_range (arg_epochs a)
    \<and> length (w_history (snd (main c a ev fs))) = nat (arg_epochs a)
    \<and> distinct (map e_path (w_history (snd (main c a ev fs))))
    \<and> (\<forall>h \<in> set (w_history (snd (main c a ev fs))).
          e_path h = checkpoint_path (env_float_repr ev) (arg_pth_dir a) (e_epoch h)
                       (e_valid_loss h)
        \<and> py_round (e_valid_loss h) 4 = e_valid_loss h
        \<and> w_files (snd (main c a ev fs)) (e_path h) = Some (File (e_net h)))
    \<and> (\<forall>q. fs q \<noteq> None \<longrightarrow> q \<notin> e_path ` set (w_history (snd (main c a ev fs)))
          \<longrightarrow> w_files (snd (main c a ev fs)) q = fs q)"
proof -
  let ?H = "w_history (snd (main c a ev fs))" and ?F = "w_files (snd (main c a ev fs))"
  let ?es = "epoch_range (arg_epochs a)"
  from main_run[of c a ev fs] assms obtain cfg trl val s where
    s: "l_history s = []" "l_files s = fs" and
    f0: "fst (main c a ev fs) = fst (run_epochs c a ev cfg trl val ?es s)" and
    h: "?H = l_history (snd (run_epochs c a ev cfg trl val ?es s))" and
    fl: "?F = l_files (snd (run_epochs c a ev cfg trl val ?es s))"
    by blast
  have f: "fst (run_epochs c a ev cfg trl val ?es s) = None" using f0 assms by simp
  obtain s' where run: "run_epochs c a ev cfg trl val ?es s = (None, s')"
    using f by (cases "run_epochs c a ev cfg trl val ?es s") auto
  have d: "distinct ?es" by (simp add: epoch_range_def)
  from run_epochs_checkpoints[OF run d] obtain H where
    1: "l_history s' = l_history s @ H" and
    2: "map e_epoch H = ?es" and
    3: "\<forall>h \<in> set H.
            e_path h = checkpoint_path (env_float_repr ev) (arg_pth_dir a) (e_epoch h)
                         (e_valid_loss h)
          \<and> py_round (e_valid_loss h) 4 = e_valid_loss h
          \<and> l_files s' (e_path h) = Some (File (e_net h))" and
    4: "\<forall>q. l_files s q \<noteq> None \<longrightarrow> q \<notin> e_path ` set H \<longrightarrow> l_files s' q = l_files s q"
    by blast
  have H: "?H = H" using h run 1 s by simp
  have F: "?F = l_files s'" using fl run by simp
  have a: "map e_epoch ?H = ?es" using 2 H by simp
  have "length (map e_epoch ?H) = length ?es" by (simp only: a)
  then have b: "length ?H = nat (arg_epochs a)" by (simp add: epoch_range_def)
  have "distinct (map e_epoch H)" using 2 d by simp
  then have "distinct (map e_path H)"
    using 3 paths_distinct[of H "env_float_repr ev" "arg_pth_dir a"] by blast
  then have c: "distinct (map e_path ?H)" using H by simp
  have e: "\<forall>h \<in> set ?H.
          e_path h = checkpoint_path (env_float_repr ev) (arg_pth_dir a) (e_epoch h)
                       (e_valid_loss h)
        \<and> py_round (e_valid_loss h) 4 = e_valid_loss h
        \<and> ?F (e_path h) = Some (File (e_net h))"
    using 3 by (simp only: H F)
  have g: "\<forall>q. fs q \<noteq> None \<longrightarrow> q \<notin> e_path ` set ?H \<longrightarrow> ?F q = fs q"
    using 4 s(2) by (simp only: H F)
  show ?thesis by (intro conjI a b c e g)
qed

theorem checkpoint_every_epoch_witness:
  "fst (main toy toy_args toy_env empty_fs) = None
   \<and> map e_epoch (w_history (snd (main toy toy_args toy_env empty_fs))) = [1, 2, 3]
   \<and> map e_path (w_history (snd (main toy toy_args toy_env empty_fs)))
       = [''checkpoints/neuralsea-epoch-1-loss-41.0.pth'',
          ''checkpoints/neuralsea-epoch-2-loss-41.0.pth'',
          ''checkpoints/neuralsea-epoch-3-loss-36.1.pth'']
   \<and> distinct (map e_path (w_history (snd (main toy toy_args toy_env empty_fs))))
   \<and> w_files (snd (main toy toy_args toy_env empty_fs))
        ''checkpoints/neuralsea-epoch-1-loss-41.0.pth'' = Some (File 3)"
proof -
  have ok: "fst (main toy toy_args toy_env empty_fs) = None" by (simp add: toy_main)
  show ?thesis
    using checkpoint_every_epoch [OF ok] ok
    by (simp add: toy_main toy_fields toy_steps)
qed


end
